theory Spec2Isabelle
  imports Main "HOL-Library.Sublist"
begin

section \<open>Python strings\<close>

text \<open>
  A Python \<open>str\<close> is a sequence of Unicode code points; it is modelled as a list of
  natural numbers, one per code point. The keywords of the language are Hangul words;
  each is given below by its code points.
\<close>

type_synonym ustr = "nat list"

text \<open>\<open>str.isspace\<close>: the code points that \<open>strip()\<close> and \<open>split()\<close> treat as white space.\<close>

definition is_space :: "nat \<Rightarrow> bool" where
  "is_space c \<longleftrightarrow>
     c \<in> set [9, 10, 11, 12, 13, 28, 29, 30, 31, 32, 133, 160, 5760,
               8192, 8193, 8194, 8195, 8196, 8197, 8198, 8199, 8200, 8201, 8202,
               8232, 8233, 8239, 8287, 12288]"

text \<open>The line boundaries of \<open>str.splitlines\<close>.\<close>

definition is_linebreak :: "nat \<Rightarrow> bool" where
  "is_linebreak c \<longleftrightarrow> c \<in> set [10, 11, 12, 13, 28, 29, 30, 133, 8232, 8233]"

text \<open>\<open>s.strip()\<close>\<close>

definition py_strip :: "ustr \<Rightarrow> ustr" where
  "py_strip s = rev (dropWhile is_space (rev (dropWhile is_space s)))"

text \<open>\<open>s.split()\<close>: the maximal runs of non-space code points. The first argument is the
  run being read.\<close>

fun split_ws :: "ustr \<Rightarrow> ustr \<Rightarrow> ustr list" where
  "split_ws cur [] = (if cur = [] then [] else [cur])"
| "split_ws cur (c # cs) =
     (if is_space c then (if cur = [] then split_ws [] cs else cur # split_ws [] cs)
      else split_ws (cur @ [c]) cs)"

definition py_split :: "ustr \<Rightarrow> ustr list" where
  "py_split s = split_ws [] s"

text \<open>\<open>s.split(",")\<close>: the pieces between the separators, empty pieces kept.\<close>

fun split_on :: "nat \<Rightarrow> ustr \<Rightarrow> ustr \<Rightarrow> ustr list" where
  "split_on sep cur [] = [cur]"
| "split_on sep cur (c # cs) =
     (if c = sep then cur # split_on sep [] cs else split_on sep (cur @ [c]) cs)"

text \<open>\<open>s.splitlines()\<close>: a carriage return followed by a line feed is one boundary, and
  a boundary at the very end opens no further line.\<close>

fun splitlines_from :: "ustr \<Rightarrow> ustr \<Rightarrow> ustr list" where
  "splitlines_from cur [] = (if cur = [] then [] else [cur])"
| "splitlines_from cur [c] = (if is_linebreak c then [cur] else [cur @ [c]])"
| "splitlines_from cur (c # d # cs) =
     (if c = 13 \<and> d = 10 then cur # splitlines_from [] cs
      else if is_linebreak c then cur # splitlines_from [] (d # cs)
      else splitlines_from (cur @ [c]) (d # cs))"

definition py_splitlines :: "ustr \<Rightarrow> ustr list" where
  "py_splitlines s = splitlines_from [] s"

text \<open>\<open>" ".join(xs)\<close>\<close>

fun py_join :: "ustr list \<Rightarrow> ustr" where
  "py_join [] = []"
| "py_join [x] = x"
| "py_join (x # y # ys) = x @ [32] @ py_join (y # ys)"

text \<open>\<open>s.index(sub)\<close>: the lowest index at which \<open>sub\<close> starts; \<open>None\<close> is the
  \<open>ValueError\<close> of a missing substring.\<close>

primrec py_index :: "ustr \<Rightarrow> ustr \<Rightarrow> nat option" where
  "py_index [] sub = (if sub = [] then Some 0 else None)"
| "py_index (c # cs) sub =
     (if prefix sub (c # cs) then Some 0 else map_option Suc (py_index cs sub))"

text \<open>\<open>sub in s\<close>\<close>

definition py_in :: "ustr \<Rightarrow> ustr \<Rightarrow> bool" where
  "py_in sub s \<longleftrightarrow> py_index s sub \<noteq> None"

text \<open>\<open>s.replace(old, "")\<close>: the occurrences of \<open>old\<close> are deleted from left to right,
  without overlap.\<close>

fun py_delete :: "ustr \<Rightarrow> ustr \<Rightarrow> ustr" where
  "py_delete old [] = []"
| "py_delete old (c # cs) =
     (if old \<noteq> [] \<and> prefix old (c # cs)
      then py_delete old (drop (length old - 1) cs)
      else c # py_delete old cs)"

text \<open>\<open>s[i:j]\<close> for \<open>0 \<le> i\<close> and \<open>0 \<le> j\<close>\<close>

definition py_slice :: "ustr \<Rightarrow> nat \<Rightarrow> nat \<Rightarrow> ustr" where
  "py_slice s i j = take (j - i) (drop i s)"

section \<open>Constants and configuration\<close>

text \<open>The three constant names: U+BD80 U+B4E4 twice (value 0), U+BFB0 U+C871 twice
  (value -1), U+D3ED U+C2E0 twice (value 1).\<close>

definition budeulbudeul :: ustr where
  "budeulbudeul = [48512, 46308, 48512, 46308]"

definition ppyojokppyojok :: ustr where
  "ppyojokppyojok = [49072, 51313, 49072, 51313]"

definition poksinpoksin :: ustr where
  "poksinpoksin = [54253, 49888, 54253, 49888]"

definition CONSTANTS :: "ustr \<rightharpoonup> int" where
  "CONSTANTS = [budeulbudeul \<mapsto> 0, ppyojokppyojok \<mapsto> -1, poksinpoksin \<mapsto> 1]"

definition START_MARKER :: ustr where
  "START_MARKER = [55121, 48177, 50836, 47532, 49324, 50, 32,
                   55176, 46304, 48177, 49688, 51200, 32, 52572, 44053, 47197]"

definition END_MARKER :: ustr where
  "END_MARKER = [48177, 49688, 51200, 32, 52572, 44053, 47197, 32, 50864, 49849]"

text \<open>The command words: add U+C870 U+B824, subtract U+C870 U+B9B0 U+B2E4, multiply
  U+C870 U+B9AC U+ACE0, negate U+C559, print U+C744, jump U+C870 U+B9BC U+D551, declare
  U+B098 U+C57C; the comparators U+C870 U+B9BC U+C778 U+AC04 and the same word after
  U+C695 U+B9DD U+C758; the label prefix U+C5F0 U+C1C4 U+C870 U+B9BC U+B9C8.\<close>

definition joryeo :: ustr where
  "joryeo = [51312, 47140]"

definition jorinda :: ustr where
  "jorinda = [51312, 47536, 45796]"

definition jorigo :: ustr where
  "jorigo = [51312, 47532, 44256]"

definition ang :: ustr where
  "ang = [50521]"

definition eul :: ustr where
  "eul = [51012]"

definition jorimping :: ustr where
  "jorimping = [51312, 47548, 54609]"

definition naya :: ustr where
  "naya = [45208, 50556]"

definition jorimingan :: ustr where
  "jorimingan = [51312, 47548, 51064, 44036]"

definition yokmangui_jorimingan :: ustr where
  "yokmangui_jorimingan = [50837, 47581, 51032, 51312, 47548, 51064, 44036]"

definition yeonswaejorimma :: ustr where
  "yeonswaejorimma = [50672, 49604, 51312, 47548, 47560]"

definition SUFFIX_KEYWORDS :: "ustr set" where
  "SUFFIX_KEYWORDS = {joryeo, jorinda, jorigo, ang, eul, jorimping}"

definition PREFIX_KEYWORD :: ustr where
  "PREFIX_KEYWORD = naya"

datatype runtime_cause =
    ConstantMutation ustr
  | UndefinedVariable ustr
  | MissingLabel ustr
  | UnknownCommand ustr

datatype error =
    CKRSyntaxError
  | CKRRuntimeError runtime_cause
  | IndexError
  | OverflowError

section \<open>Lexer\<close>

text \<open>
  \<open>re.sub(r'("[^"]*"|\'[^\']*\')', '', raw_code)\<close>: scanning from the left, a quote
  character (34 or 39) that has a later quote of its own kind is deleted together with
  everything up to and including the nearest such quote; a quote character with no later
  partner stays, as every other code point does.
\<close>

fun after_quote :: "nat \<Rightarrow> ustr \<Rightarrow> ustr option" where
  "after_quote q [] = None"
| "after_quote q (c # cs) = (if c = q then Some cs else after_quote q cs)"

lemma after_quote_shorter: "after_quote q cs = Some r \<Longrightarrow> length r < length cs"
  by (induction cs) (auto split: if_splits)

function remove_quoted :: "ustr \<Rightarrow> ustr" where
  "remove_quoted [] = []"
| "remove_quoted (c # cs) =
     (if c = 34 \<or> c = 39
      then (case after_quote c cs of
              Some rest \<Rightarrow> remove_quoted rest
            | None \<Rightarrow> c # remove_quoted cs)
      else c # remove_quoted cs)"
  by pat_completeness auto
termination
  by (relation "measure length") (auto dest: after_quote_shorter)

definition clean_code :: "ustr \<Rightarrow> error + ustr" where
  "clean_code raw_code =
     (let no_comment_code = remove_quoted raw_code in
      case py_index no_comment_code START_MARKER of
        None \<Rightarrow> Inl CKRSyntaxError
      | Some i \<Rightarrow>
          (let start_idx = i + length START_MARKER in
           case py_index no_comment_code END_MARKER of
             None \<Rightarrow> Inl CKRSyntaxError
           | Some end_idx \<Rightarrow>
               if start_idx \<ge> end_idx then Inl CKRSyntaxError
               else Inr (py_slice no_comment_code start_idx end_idx)))"

text \<open>
  The body of the loop over the tokens of a line: the state is the list of groups closed
  so far and the buffer; \<open>next_token\<close> is the lookahead (\<open>None\<close> at the last token).
\<close>

definition token_step ::
  "ustr list list \<times> ustr list \<Rightarrow> ustr \<Rightarrow> ustr option \<Rightarrow> ustr list list \<times> ustr list" where
  "token_step gb token next_token =
     (let (grouped, buffer) = gb in
      if token \<in> SUFFIX_KEYWORDS then (grouped @ [buffer @ [token]], [])
      else if token = PREFIX_KEYWORD
        then ((if buffer \<noteq> [] then grouped @ [buffer] else grouped), [token])
      else if (case next_token of None \<Rightarrow> False | Some n \<Rightarrow> n \<in> SUFFIX_KEYWORDS)
        then (if buffer \<noteq> [] \<and> hd buffer = PREFIX_KEYWORD
              then (grouped @ [buffer], [token])
              else (grouped, buffer @ [token]))
      else (grouped, buffer @ [token]))"

fun token_loop :: "ustr list list \<times> ustr list \<Rightarrow> ustr list \<Rightarrow> ustr list list \<times> ustr list" where
  "token_loop gb [] = gb"
| "token_loop gb (t # ts) =
     token_loop (token_step gb t (case ts of [] \<Rightarrow> None | n # _ \<Rightarrow> Some n)) ts"

text \<open>One line: the buffer starts empty and what is left in it at the end is flushed.\<close>

definition tokenize_line :: "ustr list list \<Rightarrow> ustr \<Rightarrow> ustr list list" where
  "tokenize_line grouped ln =
     (let (grouped', buffer) = token_loop (grouped, []) (py_split ln)
      in if buffer \<noteq> [] then grouped' @ [buffer] else grouped')"

definition start_lines :: "ustr \<Rightarrow> ustr list" where
  "start_lines core_code =
     map py_strip (filter (\<lambda>ln. py_strip ln \<noteq> []) (py_splitlines core_code))"

definition tokenize :: "ustr \<Rightarrow> error + ustr list list" where
  "tokenize raw_code =
     (case clean_code raw_code of
        Inl e \<Rightarrow> Inl e
      | Inr core_code \<Rightarrow> Inr (foldl tokenize_line [] (start_lines core_code)))"


text \<open>
  Where the scan stands when it has read a piece of the text depends on what follows: a
  quote character with no later partner in the piece is an ordinary character only if
  the rest of the text holds no partner either. \<open>scan_reaches pre rest\<close> says that the
  scan of \<open>pre @ rest\<close> arrives at \<open>rest\<close> outside every quoted span, so that a span
  starting there is one the scan finds.
\<close>

function scan_reaches :: "ustr \<Rightarrow> ustr \<Rightarrow> bool" where
  "scan_reaches [] rest = True"
| "scan_reaches (c # cs) rest =
     (if c = 34 \<or> c = 39
      then (case after_quote c cs of
              Some r \<Rightarrow> scan_reaches r rest
            | None \<Rightarrow> after_quote c rest = None \<and> scan_reaches cs rest)
      else scan_reaches cs rest)"
  by pat_completeness auto
termination
  by (relation "measure (\<lambda>(pre, rest). length pre)") (auto dest: after_quote_shorter)

section \<open>Parser\<close>

record instruction =
  line :: ustr
  tokens :: "ustr list"

text \<open>
  The body of the loop over the groups: an empty group is skipped; a group whose first
  token starts with the label word records the label (the token with every occurrence of
  the label word deleted, stripped) at the index of the next instruction; any other group
  becomes an instruction.
\<close>

definition parse_step ::
  "instruction list \<times> (ustr \<rightharpoonup> nat) \<Rightarrow> ustr list \<Rightarrow> instruction list \<times> (ustr \<rightharpoonup> nat)" where
  "parse_step il tks =
     (let (instructions, labels) = il in
      if tks = [] then (instructions, labels)
      else if prefix yeonswaejorimma (hd tks)
        then (instructions,
              labels(py_strip (py_delete yeonswaejorimma (hd tks)) \<mapsto> length instructions))
      else (instructions @ [\<lparr>line = py_join tks, tokens = tks\<rparr>], labels))"

definition parse :: "ustr list list \<Rightarrow> instruction list \<times> (ustr \<rightharpoonup> nat)" where
  "parse instruction_groups = foldl parse_step ([], Map.empty) instruction_groups"

section \<open>Evaluator\<close>

text \<open>
  The evaluator holds the variables and the program counter; the characters printed so
  far are kept with them, as the list of code points written to standard output. The
  debug flag is taken to be off (its default), so that nothing else is written.
\<close>

record evaluator =
  variables :: "ustr \<rightharpoonup> int"
  pc :: nat
  stdout :: "nat list"

definition is_constant :: "ustr \<Rightarrow> bool" where
  "is_constant name \<longleftrightarrow> CONSTANTS name \<noteq> None"

definition get_val :: "(ustr \<rightharpoonup> int) \<Rightarrow> ustr \<Rightarrow> error + int" where
  "get_val vars name =
     (case CONSTANTS name of
        Some v \<Rightarrow> Inr v
      | None \<Rightarrow>
          (case vars name of
             Some v \<Rightarrow> Inr v
           | None \<Rightarrow> Inl (CKRRuntimeError (UndefinedVariable name))))"

text \<open>\<open>[self.get_val(s) for s in subjects]\<close>: the values from left to right, up to the
  first read that raises.\<close>

fun get_vals :: "(ustr \<rightharpoonup> int) \<Rightarrow> ustr list \<Rightarrow> error + int list" where
  "get_vals vars [] = Inr []"
| "get_vals vars (s # ss) =
     (case get_val vars s of
        Inl e \<Rightarrow> Inl e
      | Inr v \<Rightarrow> (case get_vals vars ss of Inl e \<Rightarrow> Inl e | Inr vs \<Rightarrow> Inr (v # vs)))"

text \<open>\<open>self.variables[name]\<close> read directly: the store is a \<open>defaultdict(int)\<close>, so a
  name it does not hold reads as 0.\<close>

definition default_read :: "(ustr \<rightharpoonup> int) \<Rightarrow> ustr \<Rightarrow> int" where
  "default_read vars name = (case vars name of None \<Rightarrow> 0 | Some v \<Rightarrow> v)"

definition parse_subjects :: "ustr \<Rightarrow> ustr list" where
  "parse_subjects subject_chunk =
     (if subject_chunk = [] then []
      else filter (\<lambda>s. s \<noteq> []) (map py_strip (split_on 44 [] subject_chunk)))"

text \<open>
  \<open>chr(val)\<close> first converts its argument to a machine integer (a C \<open>int\<close> of 32
  bits): an argument that does not fit raises \<open>OverflowError\<close>. An argument that fits
  is the character of that code point when it lies below \<open>0x110000\<close> and raises
  \<open>ValueError\<close> otherwise.
\<close>

datatype chr_result = Chr nat | ChrValueError | ChrOverflowError

definition py_chr :: "int \<Rightarrow> chr_result" where
  "py_chr i =
     (if i < - 2147483648 \<or> 2147483647 < i then ChrOverflowError
      else if 0 \<le> i \<and> i < 1114112 then Chr (nat i)
      else ChrValueError)"

text \<open>
  The \<open>try\<close> statement of print, for one value. Standard output is a text stream
  encoded as UTF-8: writing a surrogate (U+D800 to U+DFFF) raises \<open>UnicodeEncodeError\<close>,
  which is a \<open>ValueError\<close>. The handler catches \<open>ValueError\<close> only, from \<open>chr\<close> or from
  the stream, and writes a question mark (63) instead; the \<open>OverflowError\<close> of \<open>chr\<close> is
  not caught and leaves the statement.
\<close>

definition printed :: "int \<Rightarrow> error + nat" where
  "printed val =
     (case py_chr val of
        ChrOverflowError \<Rightarrow> Inl OverflowError
      | ChrValueError \<Rightarrow> Inr 63
      | Chr c \<Rightarrow> if 55296 \<le> c \<and> c \<le> 57343 then Inr 63 else Inr c)"

text \<open>The loops over the subjects of declare, negate and print. A failure carries the
  evaluator as it is at the moment of the raise.\<close>

fun declare_loop :: "ustr list \<Rightarrow> evaluator \<Rightarrow> error \<times> evaluator + evaluator" where
  "declare_loop [] ev = Inr ev"
| "declare_loop (s # ss) ev =
     (if is_constant s then Inl (CKRRuntimeError (ConstantMutation s), ev)
      else declare_loop ss (ev\<lparr>variables := (variables ev)(s \<mapsto> 0)\<rparr>))"

fun negate_loop :: "ustr list \<Rightarrow> evaluator \<Rightarrow> error \<times> evaluator + evaluator" where
  "negate_loop [] ev = Inr ev"
| "negate_loop (s # ss) ev =
     (if is_constant s then Inl (CKRRuntimeError (ConstantMutation s), ev)
      else negate_loop ss
             (ev\<lparr>variables := (variables ev)(s \<mapsto> - default_read (variables ev) s)\<rparr>))"

fun print_loop :: "ustr list \<Rightarrow> evaluator \<Rightarrow> error \<times> evaluator + evaluator" where
  "print_loop [] ev = Inr ev"
| "print_loop (s # ss) ev =
     (case get_val (variables ev) s of
        Inl e \<Rightarrow> Inl (e, ev)
      | Inr val \<Rightarrow>
          (case printed val of
             Inl e \<Rightarrow> Inl (e, ev)
           | Inr c \<Rightarrow> print_loop ss (ev\<lparr>stdout := stdout ev @ [c]\<rparr>)))"

text \<open>
  Add, subtract and multiply share their shape: nothing without a subject; the target is
  the first subject and must not be a constant; one subject alone is updated in place
  (read through the defaulting store); with more subjects every one is read with
  \<open>get_val\<close>, from left to right, and the target is assigned the combination.
\<close>

definition arith ::
  "(int \<Rightarrow> int) \<Rightarrow> (int list \<Rightarrow> int) \<Rightarrow> ustr list \<Rightarrow> evaluator \<Rightarrow> error \<times> evaluator + evaluator" where
  "arith single combine subjects ev =
     (case subjects of
        [] \<Rightarrow> Inr ev
      | target # rest \<Rightarrow>
          if is_constant target then Inl (CKRRuntimeError (ConstantMutation target), ev)
          else if rest = []
            then Inr (ev\<lparr>variables :=
                        (variables ev)(target \<mapsto> single (default_read (variables ev) target))\<rparr>)
          else (case get_vals (variables ev) subjects of
                  Inl e \<Rightarrow> Inl (e, ev)
                | Inr vals \<Rightarrow> Inr (ev\<lparr>variables := (variables ev)(target \<mapsto> combine vals)\<rparr>)))"

definition do_add :: "ustr list \<Rightarrow> evaluator \<Rightarrow> error \<times> evaluator + evaluator" where
  "do_add = arith (\<lambda>v. v + 1) sum_list"

definition do_sub :: "ustr list \<Rightarrow> evaluator \<Rightarrow> error \<times> evaluator + evaluator" where
  "do_sub = arith (\<lambda>v. v - 1) (\<lambda>vals. hd vals - sum_list (tl vals))"

definition do_mul :: "ustr list \<Rightarrow> evaluator \<Rightarrow> error \<times> evaluator + evaluator" where
  "do_mul = arith (\<lambda>v. v * 2) prod_list"

text \<open>The subjects of an operation: the tokens after the first (for declare) or before
  the last, joined and split at the commas.\<close>

definition subjects_of :: "ustr \<Rightarrow> ustr list \<Rightarrow> ustr list" where
  "subjects_of cmd tks =
     (if cmd = naya then parse_subjects (py_join (tl tks))
      else parse_subjects (py_join (butlast tks)))"

text \<open>The operations branch of \<open>run\<close>.\<close>

definition exec_operation :: "ustr \<Rightarrow> ustr list \<Rightarrow> evaluator \<Rightarrow> error \<times> evaluator + evaluator" where
  "exec_operation cmd tks ev =
     (let subjects = subjects_of cmd tks
      in if cmd = naya then declare_loop subjects ev
         else if cmd = joryeo then do_add subjects ev
         else if cmd = jorinda then do_sub subjects ev
         else if cmd = jorigo then do_mul subjects ev
         else if cmd = ang then negate_loop subjects ev
         else if cmd = eul then print_loop subjects ev
         else Inl (CKRRuntimeError (UnknownCommand cmd), ev))"

text \<open>The condition of a jump, from the comparator and the values of the subjects.\<close>

definition condition_met :: "ustr \<Rightarrow> int list \<Rightarrow> bool" where
  "condition_met cond_op vals =
     (if vals = [] then False
      else if cond_op = jorimingan
        then (if length vals = 1 then hd vals = 0 else list_all (\<lambda>v. v = hd vals) vals)
      else if cond_op = yokmangui_jorimingan
        then (if length vals = 1 then hd vals > 0 else list_all (\<lambda>v. hd vals > v) (tl vals))
      else True)"

text \<open>A jump is conditional when it has a second-to-last token and that token contains
  a comparator word; its subjects are the tokens before the comparator.\<close>

definition cond_op_of :: "ustr list \<Rightarrow> ustr" where
  "cond_op_of tks = tks ! (length tks - 2)"

definition is_conditional :: "ustr list \<Rightarrow> bool" where
  "is_conditional tks \<longleftrightarrow>
     length tks \<ge> 2
     \<and> (py_in jorimingan (cond_op_of tks) \<or> py_in yokmangui_jorimingan (cond_op_of tks))"

definition jump_subjects :: "ustr list \<Rightarrow> ustr list" where
  "jump_subjects tks = parse_subjects (py_join (take (length tks - 2) tks))"

text \<open>The control-flow branch of \<open>run\<close>. The result already holds the next program
  counter: the label's index for a jump taken, the following index otherwise.\<close>

definition exec_jump ::
  "(ustr \<rightharpoonup> nat) \<Rightarrow> ustr \<Rightarrow> ustr list \<Rightarrow> evaluator \<Rightarrow> error \<times> evaluator + evaluator" where
  "exec_jump labels cmd tks ev =
     (let target_dots = py_delete jorimping cmd;
          cond =
            (if is_conditional tks
             then (case get_vals (variables ev) (jump_subjects tks) of
                     Inl e \<Rightarrow> Inl e
                   | Inr vals \<Rightarrow> Inr (condition_met (cond_op_of tks) vals))
             else Inr True)
      in case cond of
           Inl e \<Rightarrow> Inl (e, ev)
         | Inr True \<Rightarrow>
             (case labels target_dots of
                None \<Rightarrow> Inl (CKRRuntimeError (MissingLabel target_dots), ev)
              | Some i \<Rightarrow> Inr (ev\<lparr>pc := i\<rparr>))
         | Inr False \<Rightarrow> Inr (ev\<lparr>pc := pc ev + 1\<rparr>))"

text \<open>The command word of an instruction: the prefix keyword when the instruction starts
  with it, the last token otherwise.\<close>

definition command_of :: "ustr list \<Rightarrow> ustr" where
  "command_of tks = (if hd tks = naya then naya else last tks)"

text \<open>One pass through the body of the loop of \<open>run\<close>. An instruction without tokens
  (the parser builds none) makes \<open>tokens[0]\<close> raise.\<close>

definition exec_inst ::
  "(ustr \<rightharpoonup> nat) \<Rightarrow> instruction \<Rightarrow> evaluator \<Rightarrow> error \<times> evaluator + evaluator" where
  "exec_inst labels inst ev =
     (let tks = tokens inst in
      if tks = [] then Inl (IndexError, ev)
      else
        let cmd = command_of tks in
        if py_in jorimping cmd then exec_jump labels cmd tks ev
        else (case exec_operation cmd tks ev of
                Inl failure \<Rightarrow> Inl failure
              | Inr ev' \<Rightarrow> Inr (ev'\<lparr>pc := pc ev' + 1\<rparr>)))"

text \<open>
  The loop of \<open>run\<close> may go on for ever; it is unrolled a given number of times. A run
  is still \<open>Running\<close> when the unrolling ends first, \<open>Finished\<close> when the program counter
  has reached the number of instructions, and \<open>Aborted\<close> with the error and the
  evaluator at the raise.
\<close>

datatype run_result =
    Running evaluator
  | Finished evaluator
  | Aborted error evaluator

definition run_step :: "instruction list \<Rightarrow> (ustr \<rightharpoonup> nat) \<Rightarrow> evaluator \<Rightarrow> run_result" where
  "run_step instructions labels ev =
     (if pc ev < length instructions
      then (case exec_inst labels (instructions ! pc ev) ev of
              Inl (e, ev') \<Rightarrow> Aborted e ev'
            | Inr ev' \<Rightarrow> Running ev')
      else Finished ev)"

fun run_loop :: "nat \<Rightarrow> instruction list \<Rightarrow> (ustr \<rightharpoonup> nat) \<Rightarrow> evaluator \<Rightarrow> run_result" where
  "run_loop 0 instructions labels ev = Running ev"
| "run_loop (Suc n) instructions labels ev =
     (case run_step instructions labels ev of
        Running ev' \<Rightarrow> run_loop n instructions labels ev'
      | Finished ev' \<Rightarrow> Finished ev'
      | Aborted e ev' \<Rightarrow> Aborted e ev')"

definition run :: "nat \<Rightarrow> instruction list \<Rightarrow> (ustr \<rightharpoonup> nat) \<Rightarrow> evaluator \<Rightarrow> run_result" where
  "run n instructions labels ev = run_loop n instructions labels (ev\<lparr>pc := 0\<rparr>)"

text \<open>The evaluator a run has reached.\<close>

primrec evaluator_of :: "run_result \<Rightarrow> evaluator" where
  "evaluator_of (Running ev) = ev"
| "evaluator_of (Finished ev) = ev"
| "evaluator_of (Aborted e ev) = ev"

section \<open>Properties of the lexer\<close>

lemmas keyword_defs = joryeo_def jorinda_def jorigo_def ang_def eul_def jorimping_def naya_def
  jorimingan_def yokmangui_jorimingan_def yeonswaejorimma_def
  budeulbudeul_def ppyojokppyojok_def poksinpoksin_def

lemmas lexer_defs = tokenize_def clean_code_def START_MARKER_def END_MARKER_def py_slice_def
  start_lines_def py_splitlines_def is_linebreak_def py_strip_def is_space_def
  tokenize_line_def py_split_def token_step_def SUFFIX_KEYWORDS_def PREFIX_KEYWORD_def Let_def

lemma py_index_None_iff: "py_index s sub = None \<longleftrightarrow> \<not> sublist sub s"
  by (induction s) (auto simp: sublist_Cons_right)

lemma py_index_Some_prefix:
  "py_index s sub = Some i \<Longrightarrow>
     prefix sub (drop i s) \<and> i \<le> length s \<and> (\<forall>j<i. \<not> prefix sub (drop j s))"
  by (induction s arbitrary: i) (auto split: if_splits simp: less_Suc_eq_0_disj)

lemma after_quote_span: "q \<notin> set body \<Longrightarrow> after_quote q (body @ q # post) = Some post"
  by (induction body) auto

lemma after_quote_append:
  "after_quote q cs = Some r \<Longrightarrow> after_quote q (cs @ t) = Some (r @ t)"
  by (induction cs) (auto split: if_splits)

lemma after_quote_None_iff: "after_quote q cs = None \<longleftrightarrow> q \<notin> set cs"
  by (induction cs) auto

lemma after_quote_append_None:
  "after_quote q cs = None \<Longrightarrow> after_quote q (cs @ t) = after_quote q t"
  by (induction cs) (auto split: if_splits)

lemma remove_quoted_same_prefix:
  "scan_reaches pre r1 \<Longrightarrow> scan_reaches pre r2 \<Longrightarrow> remove_quoted r1 = remove_quoted r2 \<Longrightarrow>
     remove_quoted (pre @ r1) = remove_quoted (pre @ r2)"
proof (induction pre arbitrary: r1 r2 rule: length_induct)
  case (1 pre)
  show ?case
  proof (cases pre)
    case Nil
    with "1.prems" show ?thesis by simp
  next
    case (Cons c cs)
    show ?thesis
    proof (cases "c = 34 \<or> c = 39")
      case False
      with Cons "1.prems" have "scan_reaches cs r1" "scan_reaches cs r2" by simp_all
      moreover from Cons have "length cs < length pre" by simp
      ultimately have "remove_quoted (cs @ r1) = remove_quoted (cs @ r2)"
        using "1.IH"[rule_format, of cs r1 r2] "1.prems"(3) by blast
      with False Cons show ?thesis by simp
    next
      case q: True
      show ?thesis
      proof (cases "after_quote c cs")
        case (Some r)
        with q Cons "1.prems" have "scan_reaches r r1" "scan_reaches r r2" by simp_all
        moreover from Some Cons have "length r < length pre"
          by (auto dest: after_quote_shorter)
        ultimately have "remove_quoted (r @ r1) = remove_quoted (r @ r2)"
          using "1.IH"[rule_format, of r r1 r2] "1.prems"(3) by blast
        with q Cons Some after_quote_append[OF Some, of r1] after_quote_append[OF Some, of r2]
        show ?thesis by simp
      next
        case None
        with q Cons "1.prems" have n: "after_quote c r1 = None" "after_quote c r2 = None"
            and s: "scan_reaches cs r1" "scan_reaches cs r2"
          by simp_all
        from Cons have "length cs < length pre" by simp
        with s have "remove_quoted (cs @ r1) = remove_quoted (cs @ r2)"
          using "1.IH"[rule_format, of cs r1 r2] "1.prems"(3) by blast
        with q Cons n after_quote_append_None[OF None, of r1]
             after_quote_append_None[OF None, of r2]
        show ?thesis by simp
      qed
    qed
  qed
qed

lemma scan_reaches_subset:
  "scan_reaches pre rest \<Longrightarrow> set rest' \<subseteq> set rest \<Longrightarrow> scan_reaches pre rest'"
proof (induction pre rule: length_induct)
  case (1 pre)
  show ?case
  proof (cases pre)
    case Nil
    then show ?thesis by simp
  next
    case (Cons c cs)
    show ?thesis
    proof (cases "c = 34 \<or> c = 39")
      case False
      with Cons "1.prems" have "scan_reaches cs rest" "length cs < length pre" by simp_all
      with "1.IH"[rule_format, of cs] "1.prems"(2) have "scan_reaches cs rest'" by blast
      with False Cons show ?thesis by simp
    next
      case q: True
      show ?thesis
      proof (cases "after_quote c cs")
        case (Some r)
        with q Cons "1.prems" have "scan_reaches r rest" by simp
        moreover from Some Cons have "length r < length pre"
          by (auto dest: after_quote_shorter)
        ultimately have "scan_reaches r rest'"
          using "1.IH"[rule_format, of r] "1.prems"(2) by blast
        with q Cons Some show ?thesis by simp
      next
        case None
        with q Cons "1.prems" have "c \<notin> set rest" "scan_reaches cs rest"
          by (simp_all add: after_quote_None_iff)
        moreover from Cons have "length cs < length pre" by simp
        ultimately have "c \<notin> set rest'" "scan_reaches cs rest'"
          using "1.IH"[rule_format, of cs] "1.prems"(2) by blast+
        then have "after_quote c rest' = None" "scan_reaches cs rest'"
          by (simp_all add: after_quote_None_iff)
        with q Cons None show ?thesis by simp
      qed
    qed
  qed
qed

lemma remove_quoted_span:
  assumes "q = 34 \<or> q = 39" and "q \<notin> set body"
  shows "remove_quoted (q # body @ q # post) = remove_quoted post"
  using assms after_quote_span[of q body post] by auto

lemma remove_quoted_plain_prefix:
  "\<forall>c\<in>set pre. c \<noteq> 34 \<and> c \<noteq> 39 \<Longrightarrow> remove_quoted (pre @ t) = pre @ remove_quoted t"
  by (induction pre) auto

lemma remove_quoted_plain:
  "\<forall>c\<in>set s. c \<noteq> 34 \<and> c \<noteq> 39 \<Longrightarrow> remove_quoted s = s"
  using remove_quoted_plain_prefix[of s "[]"] by simp

lemma span_in_plain_text:
  assumes "q = 34 \<or> q = 39" and "q \<notin> set body"
    and "\<forall>c\<in>set pre \<union> set post. c \<noteq> 34 \<and> c \<noteq> 39"
  shows "remove_quoted (pre @ [q] @ body @ [q] @ post) = pre @ post"
proof -
  have "remove_quoted (pre @ [q] @ body @ [q] @ post)
          = pre @ remove_quoted ([q] @ body @ [q] @ post)"
    using assms(3) by (intro remove_quoted_plain_prefix) simp
  also have "remove_quoted ([q] @ body @ [q] @ post) = remove_quoted post"
    using remove_quoted_span[OF assms(1,2)] by simp
  also have "remove_quoted post = post"
    using assms(3) by (intro remove_quoted_plain) simp
  finally show ?thesis .
qed

text \<open>
  Claim C7. Let the text be taken after its quoted spans are removed. If the start marker
  does not occur in it, or the end marker does not occur in it, or the first start marker
  begins at or after the first end marker, then cleaning fails with the syntax error, and
  so does tokenizing: no instruction group is produced.
\<close>

theorem clean_code_marker_errors:
  assumes "\<not> sublist START_MARKER (remove_quoted raw_code)
         \<or> \<not> sublist END_MARKER (remove_quoted raw_code)
         \<or> (\<exists>i j. py_index (remove_quoted raw_code) START_MARKER = Some i
                \<and> py_index (remove_quoted raw_code) END_MARKER = Some j \<and> j \<le> i)"
  shows "clean_code raw_code = Inl CKRSyntaxError \<and> tokenize raw_code = Inl CKRSyntaxError"
  using assms
  by (auto simp: clean_code_def tokenize_def Let_def py_index_None_iff[symmetric]
           split: option.splits)

theorem clean_code_marker_errors_witness:
  "py_index (remove_quoted (END_MARKER @ START_MARKER)) START_MARKER = Some 10
   \<and> py_index (remove_quoted (END_MARKER @ START_MARKER)) END_MARKER = Some 0
   \<and> clean_code (END_MARKER @ START_MARKER) = Inl CKRSyntaxError
   \<and> tokenize (END_MARKER @ START_MARKER) = Inl CKRSyntaxError"
proof -
  have s: "py_index (remove_quoted (END_MARKER @ START_MARKER)) START_MARKER = Some 10"
    by (simp add: END_MARKER_def START_MARKER_def)
  have e: "py_index (remove_quoted (END_MARKER @ START_MARKER)) END_MARKER = Some 0"
    by (simp add: END_MARKER_def START_MARKER_def)
  from s e clean_code_marker_errors[of "END_MARKER @ START_MARKER"]
  show ?thesis by simp
qed

text \<open>
  Claim C8, as the code has it. The scan pairs the quote characters from the left, as the
  regular expression does. A quoted span is a quote character (double or single) at a
  place the scan reaches outside every span, a body without that character, and the same
  character again. Whatever the body holds (line breaks and the markers included) and
  whatever follows, cleaning and tokenizing give exactly what they give for the text with
  the span cut out: the quotes are removed from the whole raw text before the markers are
  looked for, and nothing of the span reaches a token. Where the text around the span
  holds no quote character, what is left for the markers and the tokens is that text
  itself.
\<close>

theorem quoted_span_removed:
  assumes "scan_reaches pre ([q] @ body @ [q] @ post)" and "q = 34 \<or> q = 39" and "q \<notin> set body"
  shows "clean_code (pre @ [q] @ body @ [q] @ post) = clean_code (pre @ post)
       \<and> tokenize (pre @ [q] @ body @ [q] @ post) = tokenize (pre @ post)
       \<and> ((\<forall>c\<in>set pre \<union> set post. c \<noteq> 34 \<and> c \<noteq> 39) \<longrightarrow>
            remove_quoted (pre @ [q] @ body @ [q] @ post) = pre @ post)"
proof -
  have "scan_reaches pre post"
    using scan_reaches_subset[OF assms(1), of post] by auto
  moreover have "remove_quoted ([q] @ body @ [q] @ post) = remove_quoted post"
    using remove_quoted_span[OF assms(2,3)] by simp
  ultimately have "remove_quoted (pre @ [q] @ body @ [q] @ post) = remove_quoted (pre @ post)"
    by (rule remove_quoted_same_prefix[OF assms(1)])
  then have "clean_code (pre @ [q] @ body @ [q] @ post) = clean_code (pre @ post)"
      "tokenize (pre @ [q] @ body @ [q] @ post) = tokenize (pre @ post)"
    by (simp_all add: clean_code_def tokenize_def)
  with span_in_plain_text[OF assms(2,3), of pre post] show ?thesis by blast
qed


theorem quoted_span_removed_witness:
  "scan_reaches (START_MARKER @ [10, 97, 32])
     ([34] @ ([98, 10, 99, 32] @ joryeo) @ [34] @ ([32] @ joryeo @ [10] @ END_MARKER))
   \<and> (34::nat) \<notin> set ([98, 10, 99, 32] @ joryeo)
   \<and> tokenize ((START_MARKER @ [10, 97, 32]) @ [34] @ ([98, 10, 99, 32] @ joryeo) @ [34]
                 @ ([32] @ joryeo @ [10] @ END_MARKER))
       = Inr [[[97], joryeo]]
   \<and> tokenize ((START_MARKER @ [10, 97, 32]) @ ([32] @ joryeo @ [10] @ END_MARKER))
       = Inr [[[97], joryeo]]
   \<and> remove_quoted ((START_MARKER @ [10, 97, 32]) @ [34] @ ([98, 10, 99, 32] @ joryeo)
                      @ [34] @ ([32] @ joryeo @ [10] @ END_MARKER))
       = (START_MARKER @ [10, 97, 32]) @ ([32] @ joryeo @ [10] @ END_MARKER)"
proof -
  have c: "scan_reaches (START_MARKER @ [10, 97, 32])
     ([34] @ ([98, 10, 99, 32] @ joryeo) @ [34] @ ([32] @ joryeo @ [10] @ END_MARKER))"
    by (simp add: START_MARKER_def END_MARKER_def keyword_defs)
  have b: "(34::nat) \<notin> set ([98, 10, 99, 32] @ joryeo)"
    by (simp add: keyword_defs)
  have t: "tokenize ((START_MARKER @ [10, 97, 32]) @ ([32] @ joryeo @ [10] @ END_MARKER))
             = Inr [[[97], joryeo]]"
    by (simp add: lexer_defs keyword_defs)
  have p: "\<forall>c\<in>set (START_MARKER @ [10, 97, 32]) \<union> set ([32] @ joryeo @ [10] @ END_MARKER).
             c \<noteq> 34 \<and> c \<noteq> 39"
    by (simp add: START_MARKER_def END_MARKER_def keyword_defs)
  from quoted_span_removed[OF c _ b] p have
    "tokenize ((START_MARKER @ [10, 97, 32]) @ [34] @ ([98, 10, 99, 32] @ joryeo) @ [34]
                 @ ([32] @ joryeo @ [10] @ END_MARKER))
       = tokenize ((START_MARKER @ [10, 97, 32]) @ ([32] @ joryeo @ [10] @ END_MARKER))"
    "remove_quoted ((START_MARKER @ [10, 97, 32]) @ [34] @ ([98, 10, 99, 32] @ joryeo)
                      @ [34] @ ([32] @ joryeo @ [10] @ END_MARKER))
       = (START_MARKER @ [10, 97, 32]) @ ([32] @ joryeo @ [10] @ END_MARKER)"
    by blast+
  with c b t show ?thesis by simp
qed

text \<open>
  A double-quoted span whose opening quote comes after an apostrophe: the apostrophe in
  front and the one in the body make the span that is removed, and the rest of the body,
  the name \<open>a\<close> and the add word, is tokenized as an instruction. In the text without
  the double-quoted span there is no such instruction.
\<close>

theorem apostrophe_before_span_counterexample:
  "(34::nat) \<notin> set ([121, 39, 32, 97, 32] @ joryeo @ [32])
   \<and> tokenize ((START_MARKER @ [10, 120, 39, 32]) @ [34]
                 @ ([121, 39, 32, 97, 32] @ joryeo @ [32]) @ [34] @ ([10] @ END_MARKER))
       = Inr [[[120], [97], joryeo], [[34]]]
   \<and> tokenize ((START_MARKER @ [10, 120, 39, 32]) @ ([10] @ END_MARKER))
       = Inr [[[120, 39]]]"
  by (simp add: lexer_defs keyword_defs)

text \<open>
  Claim C9. In the loop over the tokens of a line, let the token be ordinary (no suffix
  keyword and not the prefix keyword) and let the token after it be a suffix keyword. If
  the buffer is non-empty and starts with the prefix keyword, the step closes the buffer
  as a group and starts a new buffer holding just the token; otherwise it appends the
  token to the buffer. The suffix keyword then closes that buffer as the next group, and
  the loop goes on from there with an empty buffer; when the line ends there, these are
  the groups and the buffer the loop returns.
\<close>

theorem ordinary_token_lookahead:
  assumes "token \<notin> SUFFIX_KEYWORDS" and "token \<noteq> PREFIX_KEYWORD"
    and "nxt \<in> SUFFIX_KEYWORDS"
  shows "token_step (grouped, buffer) token (Some nxt) =
           (if buffer \<noteq> [] \<and> hd buffer = PREFIX_KEYWORD
            then (grouped @ [buffer], [token])
            else (grouped, buffer @ [token]))
       \<and> token_loop (grouped, buffer) (token # nxt # rest) =
           token_loop (if buffer \<noteq> [] \<and> hd buffer = PREFIX_KEYWORD
                       then (grouped @ [buffer, [token, nxt]], [])
                       else (grouped @ [buffer @ [token, nxt]], [])) rest
       \<and> token_loop (grouped, buffer) [token, nxt] =
           (if buffer \<noteq> [] \<and> hd buffer = PREFIX_KEYWORD
            then (grouped @ [buffer, [token, nxt]], [])
            else (grouped @ [buffer @ [token, nxt]], []))"
  using assms by (simp add: token_step_def)

theorem ordinary_token_lookahead_witness:
  "[97] \<notin> SUFFIX_KEYWORDS \<and> [97] \<noteq> PREFIX_KEYWORD \<and> joryeo \<in> SUFFIX_KEYWORDS
   \<and> token_step ([], [naya, [98]]) [97] (Some joryeo) = ([[naya, [98]]], [[97]])
   \<and> token_loop ([], [naya, [98]]) [[97], joryeo] = ([[naya, [98]], [[97], joryeo]], [])
   \<and> token_step ([], [[98]]) [97] (Some joryeo) = ([], [[98], [97]])
   \<and> token_loop ([], [[98]]) [[97], joryeo] = ([[[98], [97], joryeo]], [])"
proof -
  have k: "[97] \<notin> SUFFIX_KEYWORDS" "[97] \<noteq> PREFIX_KEYWORD" "joryeo \<in> SUFFIX_KEYWORDS"
    by (simp_all add: SUFFIX_KEYWORDS_def PREFIX_KEYWORD_def keyword_defs)
  have p: "hd [naya, [98]] = PREFIX_KEYWORD" "hd [[98]] \<noteq> PREFIX_KEYWORD"
    by (simp_all add: PREFIX_KEYWORD_def keyword_defs)
  from k p ordinary_token_lookahead[OF k, of "[]" "[naya, [98]]" "[]"]
       ordinary_token_lookahead[OF k, of "[]" "[[98]]" "[]"]
  show ?thesis by (simp del: token_loop.simps(2))
qed

section \<open>Properties of the parser and the evaluator\<close>

lemmas exec_defs = exec_inst_def command_of_def py_in_def exec_jump_def exec_operation_def
  subjects_of_def jump_subjects_def cond_op_of_def is_conditional_def
  parse_subjects_def py_strip_def is_space_def CONSTANTS_def is_constant_def
  do_add_def do_sub_def do_mul_def arith_def default_read_def get_val_def condition_met_def
  Let_def printed_def py_chr_def

lemma operation_words_no_jump:
  "\<not> py_in jorimping naya" "\<not> py_in jorimping joryeo" "\<not> py_in jorimping jorinda"
  "\<not> py_in jorimping jorigo" "\<not> py_in jorimping ang" "\<not> py_in jorimping eul"
  by (simp_all add: py_in_def keyword_defs)

lemma operation_words_distinct:
  "joryeo \<noteq> naya" "jorinda \<noteq> naya" "jorigo \<noteq> naya" "ang \<noteq> naya" "eul \<noteq> naya"
  "jorinda \<noteq> joryeo" "jorigo \<noteq> joryeo" "jorigo \<noteq> jorinda"
  "ang \<noteq> joryeo" "ang \<noteq> jorinda" "ang \<noteq> jorigo"
  "eul \<noteq> joryeo" "eul \<noteq> jorinda" "eul \<noteq> jorigo" "eul \<noteq> ang"
  by (simp_all add: keyword_defs)

lemma exec_inst_operation:
  assumes "tokens inst \<noteq> []" and "\<not> py_in jorimping (command_of (tokens inst))"
  shows "exec_inst labels inst ev =
           (case exec_operation (command_of (tokens inst)) (tokens inst) ev of
              Inl failure \<Rightarrow> Inl failure
            | Inr ev' \<Rightarrow> Inr (ev'\<lparr>pc := pc ev' + 1\<rparr>))"
  using assms by (simp add: exec_inst_def Let_def)

lemma exec_inst_jump:
  assumes "tokens inst \<noteq> []" and "py_in jorimping (command_of (tokens inst))"
  shows "exec_inst labels inst ev = exec_jump labels (command_of (tokens inst)) (tokens inst) ev"
  using assms by (simp add: exec_inst_def Let_def)

lemma declare_loop_failure:
  "declare_loop ss ev = Inl (e, ev') \<Longrightarrow>
     \<exists>pre s post. ss = pre @ s # post \<and> is_constant s
        \<and> e = CKRRuntimeError (ConstantMutation s) \<and> declare_loop pre ev = Inr ev'"
proof (induction ss arbitrary: ev)
  case Nil
  then show ?case by simp
next
  case (Cons a ss)
  show ?case
  proof (cases "is_constant a")
    case True
    with Cons.prems have "a # ss = [] @ a # ss \<and> is_constant a
        \<and> e = CKRRuntimeError (ConstantMutation a) \<and> declare_loop [] ev = Inr ev'"
      by simp
    then show ?thesis by blast
  next
    case False
    with Cons.prems Cons.IH[of "ev\<lparr>variables := (variables ev)(a \<mapsto> 0)\<rparr>"]
    obtain pre s post where "ss = pre @ s # post" "is_constant s"
        "e = CKRRuntimeError (ConstantMutation s)"
        "declare_loop pre (ev\<lparr>variables := (variables ev)(a \<mapsto> 0)\<rparr>) = Inr ev'"
      by auto
    with False have "a # ss = (a # pre) @ s # post \<and> is_constant s
        \<and> e = CKRRuntimeError (ConstantMutation s) \<and> declare_loop (a # pre) ev = Inr ev'"
      by simp
    then show ?thesis by blast
  qed
qed

lemma negate_loop_failure:
  "negate_loop ss ev = Inl (e, ev') \<Longrightarrow>
     \<exists>pre s post. ss = pre @ s # post \<and> is_constant s
        \<and> e = CKRRuntimeError (ConstantMutation s) \<and> negate_loop pre ev = Inr ev'"
proof (induction ss arbitrary: ev)
  case Nil
  then show ?case by simp
next
  case (Cons a ss)
  show ?case
  proof (cases "is_constant a")
    case True
    with Cons.prems have "a # ss = [] @ a # ss \<and> is_constant a
        \<and> e = CKRRuntimeError (ConstantMutation a) \<and> negate_loop [] ev = Inr ev'"
      by simp
    then show ?thesis by blast
  next
    case False
    define ev1 where "ev1 = ev\<lparr>variables := (variables ev)(a \<mapsto> - default_read (variables ev) a)\<rparr>"
    with False Cons.prems Cons.IH[of ev1]
    obtain pre s post where "ss = pre @ s # post" "is_constant s"
        "e = CKRRuntimeError (ConstantMutation s)" "negate_loop pre ev1 = Inr ev'"
      by auto
    with False ev1_def have "a # ss = (a # pre) @ s # post \<and> is_constant s
        \<and> e = CKRRuntimeError (ConstantMutation s) \<and> negate_loop (a # pre) ev = Inr ev'"
      by simp
    then show ?thesis by blast
  qed
qed

lemma get_val_failure:
  "get_val vars s = Inl e \<Longrightarrow>
     e = CKRRuntimeError (UndefinedVariable s) \<and> CONSTANTS s = None \<and> vars s = None"
  by (auto simp: get_val_def split: option.splits)

lemma printed_failure: "printed val = Inl e \<Longrightarrow> e = OverflowError"
  by (auto simp: printed_def split: chr_result.splits if_splits)

lemma printed_fits:
  "py_chr val \<noteq> ChrOverflowError \<Longrightarrow> \<exists>c. printed val = Inr c"
  by (auto simp: printed_def split: chr_result.splits)

lemma print_loop_failure:
  "print_loop ss ev = Inl (e, ev') \<Longrightarrow> e \<noteq> OverflowError \<Longrightarrow>
     \<exists>pre s post. ss = pre @ s # post \<and> get_val (variables ev') s = Inl e
        \<and> print_loop pre ev = Inr ev'"
proof (induction ss arbitrary: ev)
  case Nil
  then show ?case by simp
next
  case (Cons a ss)
  show ?case
  proof (cases "get_val (variables ev) a")
    case (Inl x)
    with Cons.prems have "a # ss = [] @ a # ss \<and> get_val (variables ev') a = Inl e
        \<and> print_loop [] ev = Inr ev'"
      by auto
    then show ?thesis by blast
  next
    case v: (Inr v)
    show ?thesis
    proof (cases "printed v")
      case (Inl x)
      with v Cons.prems printed_failure[OF Inl] show ?thesis by simp
    next
      case c: (Inr c)
      define ev1 where "ev1 = ev\<lparr>stdout := stdout ev @ [c]\<rparr>"
      with v c Cons.prems Cons.IH[of ev1]
      obtain pre s post where "ss = pre @ s # post" "get_val (variables ev') s = Inl e"
          "print_loop pre ev1 = Inr ev'"
        by auto
      with v c ev1_def have "a # ss = (a # pre) @ s # post
          \<and> get_val (variables ev') s = Inl e \<and> print_loop (a # pre) ev = Inr ev'"
        by simp
      then show ?thesis by blast
    qed
  qed
qed

lemma arith_failure: "arith f g ss ev = Inl (e, ev') \<Longrightarrow> ev' = ev"
  by (auto simp: arith_def split: list.splits if_splits sum.splits)

lemma exec_jump_failure: "exec_jump labels cmd tks ev = Inl (e, ev') \<Longrightarrow> ev' = ev"
  by (auto simp: exec_jump_def Let_def split: if_splits sum.splits bool.splits option.splits)


lemma exec_jump_conditional:
  assumes "is_conditional tks"
    and "get_vals (variables ev) (jump_subjects tks) = Inr vals"
  shows "exec_jump labels cmd tks ev =
           (if condition_met (cond_op_of tks) vals
            then (case labels (py_delete jorimping cmd) of
                    None \<Rightarrow> Inl (CKRRuntimeError (MissingLabel (py_delete jorimping cmd)), ev)
                  | Some i \<Rightarrow> Inr (ev\<lparr>pc := i\<rparr>))
            else Inr (ev\<lparr>pc := pc ev + 1\<rparr>))"
  using assms by (simp add: exec_jump_def Let_def)

lemma comparators_conditional:
  assumes "length tks \<ge> 2"
    and "cond_op_of tks = jorimingan \<or> cond_op_of tks = yokmangui_jorimingan"
  shows "is_conditional tks"
proof -
  have "py_in jorimingan jorimingan" "py_in jorimingan yokmangui_jorimingan"
    by (simp_all add: py_in_def keyword_defs)
  with assms show ?thesis by (auto simp: is_conditional_def)
qed

lemma get_vals_resolved:
  "(\<forall>s\<in>set ss. get_val vars s = Inr (val s)) \<Longrightarrow> get_vals vars ss = Inr (map val ss)"
  by (induction ss) auto

lemma print_loop_resolved:
  "(\<forall>s\<in>set ss. get_val (variables ev) s = Inr (val s) \<and> printed (val s) = Inr (out s)) \<Longrightarrow>
     print_loop ss ev = Inr (ev\<lparr>stdout := stdout ev @ map out ss\<rparr>)"
  by (induction ss arbitrary: ev) auto

lemma condition_met_equal:
  "condition_met jorimingan vals \<longleftrightarrow>
     (length vals = 1 \<and> vals ! 0 = 0) \<or> (length vals > 1 \<and> (\<forall>k<length vals. vals ! k = vals ! 0))"
  by (cases vals) (auto simp: condition_met_def list_all_length less_Suc_eq_0_disj)

lemma condition_met_greater:
  "condition_met yokmangui_jorimingan vals \<longleftrightarrow>
     (length vals = 1 \<and> vals ! 0 > 0)
     \<or> (length vals > 1 \<and> (\<forall>k. 1 \<le> k \<and> k < length vals \<longrightarrow> vals ! 0 > vals ! k))"
proof (cases vals)
  case Nil
  then show ?thesis by (simp add: condition_met_def)
next
  case (Cons v vs)
  have ne: "yokmangui_jorimingan \<noteq> jorimingan" by (simp add: keyword_defs)
  have "(\<forall>k<length vs. vs ! k < v) \<longleftrightarrow> (\<forall>k. 1 \<le> k \<and> k < Suc (length vs) \<longrightarrow> (v # vs) ! k < v)"
  proof
    assume a: "\<forall>k<length vs. vs ! k < v"
    show "\<forall>k. 1 \<le> k \<and> k < Suc (length vs) \<longrightarrow> (v # vs) ! k < v"
    proof (intro allI impI)
      fix k assume "1 \<le> k \<and> k < Suc (length vs)"
      then obtain j where "k = Suc j" "j < length vs" by (cases k) auto
      with a show "(v # vs) ! k < v" by simp
    qed
  next
    assume a: "\<forall>k. 1 \<le> k \<and> k < Suc (length vs) \<longrightarrow> (v # vs) ! k < v"
    show "\<forall>k<length vs. vs ! k < v"
    proof (intro allI impI)
      fix k assume "k < length vs"
      with a[rule_format, of "Suc k"] show "vs ! k < v" by simp
    qed
  qed
  with Cons ne show ?thesis
    by (auto simp: condition_met_def list_all_length)
qed

lemma get_vals_undefined:
  assumes "CONSTANTS n = None" and "vars n = None"
  shows "n \<in> set ss \<Longrightarrow> \<exists>m. get_vals vars ss = Inl (CKRRuntimeError (UndefinedVariable m))"
proof (induction ss)
  case Nil
  then show ?case by simp
next
  case (Cons a ss)
  show ?case
  proof (cases "get_val vars a")
    case (Inl e)
    then show ?thesis by (auto dest: get_val_failure)
  next
    case (Inr v)
    with assms have "a \<noteq> n" by (auto simp: get_val_def)
    with Cons Inr show ?thesis by auto
  qed
qed

lemma print_loop_undefined:
  assumes "CONSTANTS n = None"
  shows "n \<in> set ss \<Longrightarrow> variables ev n = None \<Longrightarrow>
     (\<forall>s\<in>set ss. \<forall>v. get_val (variables ev) s = Inr v \<longrightarrow> py_chr v \<noteq> ChrOverflowError) \<Longrightarrow>
     \<exists>m ev'. print_loop ss ev = Inl (CKRRuntimeError (UndefinedVariable m), ev')"
proof (induction ss arbitrary: ev)
  case Nil
  then show ?case by simp
next
  case (Cons a ss)
  show ?case
  proof (cases "get_val (variables ev) a")
    case (Inl e)
    then show ?thesis by (auto dest: get_val_failure)
  next
    case (Inr v)
    with assms Cons.prems have "a \<noteq> n" by (auto simp: get_val_def)
    with Cons.prems have n: "n \<in> set ss" by simp
    from Inr Cons.prems(3) have "py_chr v \<noteq> ChrOverflowError" by simp
    then obtain c where c: "printed v = Inr c" using printed_fits by blast
    define ev1 where "ev1 = ev\<lparr>stdout := stdout ev @ [c]\<rparr>"
    have "variables ev1 n = None"
        "\<forall>s\<in>set ss. \<forall>v. get_val (variables ev1) s = Inr v \<longrightarrow> py_chr v \<noteq> ChrOverflowError"
      using Cons.prems(2,3) by (simp_all add: ev1_def)
    from Cons.IH[OF n this] Inr c show ?thesis by (simp add: ev1_def)
  qed
qed

lemma negate_loop_default:
  assumes "variables ev n = None \<or> variables ev n = Some 0"
    and "\<forall>s\<in>set ss. \<not> is_constant s"
  shows "\<exists>ev'. negate_loop ss ev = Inr ev'
           \<and> variables ev' n = (if n \<in> set ss then Some 0 else variables ev n)"
  using assms
proof (induction ss arbitrary: ev)
  case Nil
  then show ?case by simp
next
  case (Cons a ss)
  define ev1 where "ev1 = ev\<lparr>variables := (variables ev)(a \<mapsto> - default_read (variables ev) a)\<rparr>"
  have v1: "variables ev1 n = (if a = n then Some 0 else variables ev n)"
    using Cons.prems(1) by (auto simp: ev1_def default_read_def)
  with Cons.prems have "variables ev1 n = None \<or> variables ev1 n = Some 0" by auto
  from Cons.IH[OF this] Cons.prems(2)
  obtain ev' where "negate_loop ss ev1 = Inr ev'"
      "variables ev' n = (if n \<in> set ss then Some 0 else variables ev1 n)"
    by auto
  with v1 Cons.prems(2) show ?case by (auto simp: ev1_def)
qed

lemma declare_loop_zero:
  assumes "\<forall>s\<in>set ss. \<not> is_constant s"
  shows "\<exists>ev'. declare_loop ss ev = Inr ev'
           \<and> (\<forall>s. variables ev' s = (if s \<in> set ss then Some 0 else variables ev s))"
  using assms
proof (induction ss arbitrary: ev)
  case Nil
  then show ?case by simp
next
  case (Cons a ss)
  then obtain ev' where "declare_loop ss (ev\<lparr>variables := (variables ev)(a \<mapsto> 0)\<rparr>) = Inr ev'"
      "\<forall>s. variables ev' s = (if s \<in> set ss then Some 0
                               else variables (ev\<lparr>variables := (variables ev)(a \<mapsto> 0)\<rparr>) s)"
    by fastforce
  with Cons.prems show ?case by auto
qed

lemma parse_step_labels:
  assumes "\<forall>name i. snd il name = Some i \<longrightarrow> i \<le> length (fst il)"
  shows "\<forall>name i. snd (parse_step il g) name = Some i \<longrightarrow> i \<le> length (fst (parse_step il g))"
  using assms by (cases il) (auto simp: parse_step_def Let_def le_Suc_eq)

lemma foldl_parse_step_labels:
  assumes "\<forall>name i. snd il name = Some i \<longrightarrow> i \<le> length (fst il)"
  shows "\<forall>name i. snd (foldl parse_step il gs) name = Some i
           \<longrightarrow> i \<le> length (fst (foldl parse_step il gs))"
  using assms
proof (induction gs arbitrary: il)
  case Nil
  then show ?case by simp
next
  case (Cons g gs)
  from Cons.IH[OF parse_step_labels[OF Cons.prems]] show ?case by simp
qed

lemma declare_loop_pc:
  "declare_loop ss ev = Inr ev' \<Longrightarrow> pc ev' = pc ev"
  "declare_loop ss ev = Inl (e, ev') \<Longrightarrow> pc ev' = pc ev"
  by (induction ss arbitrary: ev) (auto split: if_splits)

lemma negate_loop_pc:
  "negate_loop ss ev = Inr ev' \<Longrightarrow> pc ev' = pc ev"
  "negate_loop ss ev = Inl (e, ev') \<Longrightarrow> pc ev' = pc ev"
  by (induction ss arbitrary: ev) (auto split: if_splits)

lemma print_loop_pc:
  "print_loop ss ev = Inr ev' \<Longrightarrow> pc ev' = pc ev"
  "print_loop ss ev = Inl (e, ev') \<Longrightarrow> pc ev' = pc ev"
  by (induction ss arbitrary: ev) (auto split: sum.splits)

lemma arith_pc:
  "arith f g ss ev = Inr ev' \<Longrightarrow> pc ev' = pc ev"
  "arith f g ss ev = Inl (e, ev') \<Longrightarrow> pc ev' = pc ev"
  by (auto simp: arith_def split: list.splits if_splits sum.splits)

lemma exec_operation_pc:
  "exec_operation cmd tks ev = Inr ev' \<Longrightarrow> pc ev' = pc ev"
  "exec_operation cmd tks ev = Inl (e, ev') \<Longrightarrow> pc ev' = pc ev"
  by (auto simp: exec_operation_def do_add_def do_sub_def do_mul_def Let_def
           split: if_splits
           dest: declare_loop_pc negate_loop_pc print_loop_pc arith_pc)

lemma exec_jump_pc:
  "exec_jump labels cmd tks ev = Inr ev' \<Longrightarrow>
     pc ev' = pc ev + 1 \<or> (\<exists>name. labels name = Some (pc ev'))"
  "exec_jump labels cmd tks ev = Inl (e, ev') \<Longrightarrow> pc ev' = pc ev"
  by (auto simp: exec_jump_def Let_def split: if_splits sum.splits bool.splits option.splits)

lemma exec_inst_pc:
  "exec_inst labels inst ev = Inr ev' \<Longrightarrow>
     pc ev' = pc ev + 1 \<or> (\<exists>name. labels name = Some (pc ev'))"
  "exec_inst labels inst ev = Inl (e, ev') \<Longrightarrow> pc ev' = pc ev"
  by (auto simp: exec_inst_def Let_def split: if_splits sum.splits
           dest: exec_jump_pc exec_operation_pc)

lemma run_step_pc:
  assumes "\<forall>name i. labels name = Some i \<longrightarrow> i \<le> length instructions"
    and "pc ev \<le> length instructions"
  shows "pc (evaluator_of (run_step instructions labels ev)) \<le> length instructions"
  using assms
  by (auto simp: run_step_def split: sum.splits prod.splits dest!: exec_inst_pc)

lemma run_loop_pc:
  assumes "\<forall>name i. labels name = Some i \<longrightarrow> i \<le> length instructions"
    and "pc ev \<le> length instructions"
  shows "pc (evaluator_of (run_loop n instructions labels ev)) \<le> length instructions"
  using assms(2)
proof (induction n arbitrary: ev)
  case 0
  then show ?case by simp
next
  case (Suc n)
  from run_step_pc[OF assms(1) Suc.prems]
  show ?case by (auto split: run_result.splits intro: Suc.IH)
qed


text \<open>
  Claim C1, as the code has it. Let a name be neither a constant nor in the store. Reading
  it with \<open>get_val\<close> raises the undefined-variable error, and so does every instruction
  that reads its subjects that way: print (when no subject holds a value beyond the
  machine integers, where \<open>chr\<close> leaves the instruction first), add, subtract and
  multiply with two or more subjects (the target not a constant), and a conditional jump;
  the arithmetic and the jump leave the evaluator as it was. The single-subject forms of add, subtract and
  multiply and the negate instruction read the store directly, where a missing name counts
  as 0: they raise nothing and store 1, -1, 0 and 0 under the name. After a declare
  instruction on the name, reading it gives 0.
\<close>

theorem undefined_name_reads:
  assumes "CONSTANTS n = None" and "variables ev n = None" and "tokens inst \<noteq> []"
    and "cmd = command_of (tokens inst)" and "subjects = subjects_of cmd (tokens inst)"
  shows "get_val (variables ev) n = Inl (CKRRuntimeError (UndefinedVariable n))
       \<and> (cmd = eul \<and> n \<in> set subjects
            \<and> (\<forall>s\<in>set subjects. \<forall>v. get_val (variables ev) s = Inr v
                   \<longrightarrow> py_chr v \<noteq> ChrOverflowError) \<longrightarrow>
            (\<exists>m ev'. exec_inst labels inst ev = Inl (CKRRuntimeError (UndefinedVariable m), ev')))
       \<and> ((cmd = joryeo \<or> cmd = jorinda \<or> cmd = jorigo) \<and> length subjects \<ge> 2
            \<and> \<not> is_constant (hd subjects) \<and> n \<in> set subjects \<longrightarrow>
            (\<exists>m. exec_inst labels inst ev = Inl (CKRRuntimeError (UndefinedVariable m), ev)))
       \<and> (py_in jorimping cmd \<and> is_conditional (tokens inst)
            \<and> n \<in> set (jump_subjects (tokens inst)) \<longrightarrow>
            (\<exists>m. exec_inst labels inst ev = Inl (CKRRuntimeError (UndefinedVariable m), ev)))
       \<and> ((cmd = joryeo \<or> cmd = jorinda \<or> cmd = jorigo) \<and> subjects = [n] \<longrightarrow>
            exec_inst labels inst ev =
              Inr (ev\<lparr>variables := (variables ev)(n \<mapsto>
                       (if cmd = joryeo then 1 else if cmd = jorinda then - 1 else 0)),
                     pc := pc ev + 1\<rparr>))
       \<and> (cmd = ang \<and> n \<in> set subjects \<and> (\<forall>s\<in>set subjects. \<not> is_constant s) \<longrightarrow>
            (\<exists>ev'. exec_inst labels inst ev = Inr ev' \<and> variables ev' n = Some 0))
       \<and> (cmd = naya \<and> n \<in> set subjects \<and> (\<forall>s\<in>set subjects. \<not> is_constant s) \<longrightarrow>
            (\<exists>ev'. exec_inst labels inst ev = Inr ev' \<and> get_val (variables ev') n = Inr 0))"
proof (intro conjI impI)
  show "get_val (variables ev) n = Inl (CKRRuntimeError (UndefinedVariable n))"
    using assms(1,2) by (simp add: get_val_def)
next
  assume a: "cmd = eul \<and> n \<in> set subjects
            \<and> (\<forall>s\<in>set subjects. \<forall>v. get_val (variables ev) s = Inr v
                   \<longrightarrow> py_chr v \<noteq> ChrOverflowError)"
  with print_loop_undefined[OF assms(1) _ assms(2), of subjects]
  obtain m ev' where "print_loop subjects ev = Inl (CKRRuntimeError (UndefinedVariable m), ev')"
    by auto
  with a assms(4,5) exec_inst_operation[OF assms(3), of labels ev] operation_words_no_jump
  show "\<exists>m ev'. exec_inst labels inst ev = Inl (CKRRuntimeError (UndefinedVariable m), ev')"
    by (auto simp: exec_operation_def operation_words_distinct)
next
  assume a: "(cmd = joryeo \<or> cmd = jorinda \<or> cmd = jorigo) \<and> length subjects \<ge> 2
            \<and> \<not> is_constant (hd subjects) \<and> n \<in> set subjects"
  then have "length subjects \<ge> 2" "\<not> is_constant (hd subjects)" by simp_all
  then obtain t r where tr: "subjects = t # r" "r \<noteq> []" "\<not> is_constant t"
    by (cases subjects) (auto simp: Suc_le_eq)
  from a get_vals_undefined[where vars="variables ev" and n=n and ss=subjects] assms(1,2)
  obtain m where "get_vals (variables ev) subjects = Inl (CKRRuntimeError (UndefinedVariable m))"
    by auto
  with tr have "\<And>f g. arith f g subjects ev = Inl (CKRRuntimeError (UndefinedVariable m), ev)"
    by (simp add: arith_def)
  with a assms(4,5) exec_inst_operation[OF assms(3), of labels ev] operation_words_no_jump
  show "\<exists>m. exec_inst labels inst ev = Inl (CKRRuntimeError (UndefinedVariable m), ev)"
    by (auto simp: exec_operation_def do_add_def do_sub_def do_mul_def operation_words_distinct)
next
  assume a: "py_in jorimping cmd \<and> is_conditional (tokens inst)
            \<and> n \<in> set (jump_subjects (tokens inst))"
  from a get_vals_undefined[where vars="variables ev" and n=n and ss="jump_subjects (tokens inst)"] assms(1,2)
  obtain m where "get_vals (variables ev) (jump_subjects (tokens inst))
                    = Inl (CKRRuntimeError (UndefinedVariable m))"
    by auto
  with a have "exec_jump labels cmd (tokens inst) ev
                 = Inl (CKRRuntimeError (UndefinedVariable m), ev)"
    by (simp add: exec_jump_def)
  with a assms(4) exec_inst_jump[OF assms(3), of labels ev]
  show "\<exists>m. exec_inst labels inst ev = Inl (CKRRuntimeError (UndefinedVariable m), ev)"
    by simp
next
  assume a: "(cmd = joryeo \<or> cmd = jorinda \<or> cmd = jorigo) \<and> subjects = [n]"
  have "\<not> is_constant n" using assms(1) by (simp add: is_constant_def)
  with a assms(2) have "\<And>f g. arith f g subjects ev =
      Inr (ev\<lparr>variables := (variables ev)(n \<mapsto> f 0)\<rparr>)"
    by (simp add: arith_def default_read_def)
  with a assms(4,5) exec_inst_operation[OF assms(3), of labels ev] operation_words_no_jump
  show "exec_inst labels inst ev =
              Inr (ev\<lparr>variables := (variables ev)(n \<mapsto>
                       (if cmd = joryeo then 1 else if cmd = jorinda then - 1 else 0)),
                     pc := pc ev + 1\<rparr>)"
    by (auto simp: exec_operation_def do_add_def do_sub_def do_mul_def operation_words_distinct)
next
  assume a: "cmd = ang \<and> n \<in> set subjects \<and> (\<forall>s\<in>set subjects. \<not> is_constant s)"
  with negate_loop_default[of ev n subjects] assms(2)
  obtain ev' where "negate_loop subjects ev = Inr ev'" "variables ev' n = Some 0"
    by auto
  with a assms(4,5) exec_inst_operation[OF assms(3), of labels ev] operation_words_no_jump
  show "\<exists>ev'. exec_inst labels inst ev = Inr ev' \<and> variables ev' n = Some 0"
    by (auto simp: exec_operation_def operation_words_distinct)
next
  assume a: "cmd = naya \<and> n \<in> set subjects \<and> (\<forall>s\<in>set subjects. \<not> is_constant s)"
  with declare_loop_zero[of subjects ev]
  obtain ev' where "declare_loop subjects ev = Inr ev'" "variables ev' n = Some 0"
    by auto
  with a assms(1,4,5) exec_inst_operation[OF assms(3), of labels ev] operation_words_no_jump
  show "\<exists>ev'. exec_inst labels inst ev = Inr ev' \<and> get_val (variables ev') n = Inr 0"
    by (auto simp: exec_operation_def get_val_def)
qed


theorem undefined_name_reads_witness:
  "CONSTANTS [120] = None
   \<and> get_val Map.empty [120] = Inl (CKRRuntimeError (UndefinedVariable [120]))
   \<and> (\<exists>m ev'. exec_inst Map.empty \<lparr>line = [], tokens = [[97, 44], [120], eul]\<rparr>
          \<lparr>variables = [[97] \<mapsto> 72], pc = 0, stdout = []\<rparr>
        = Inl (CKRRuntimeError (UndefinedVariable m), ev'))
   \<and> (\<exists>m. exec_inst Map.empty \<lparr>line = [], tokens = [[97, 44], [120], jorigo]\<rparr>
          \<lparr>variables = [[97] \<mapsto> 72], pc = 0, stdout = []\<rparr>
        = Inl (CKRRuntimeError (UndefinedVariable m),
               \<lparr>variables = [[97] \<mapsto> 72], pc = 0, stdout = []\<rparr>))
   \<and> (\<exists>m. exec_inst Map.empty
          \<lparr>line = [], tokens = [[120], yokmangui_jorimingan, jorimping]\<rparr>
          \<lparr>variables = [[97] \<mapsto> 72], pc = 0, stdout = []\<rparr>
        = Inl (CKRRuntimeError (UndefinedVariable m),
               \<lparr>variables = [[97] \<mapsto> 72], pc = 0, stdout = []\<rparr>))
   \<and> exec_inst Map.empty \<lparr>line = [], tokens = [[120], jorinda]\<rparr>
          \<lparr>variables = [[97] \<mapsto> 72], pc = 0, stdout = []\<rparr>
        = Inr \<lparr>variables = [[97] \<mapsto> 72, [120] \<mapsto> - 1], pc = 1, stdout = []\<rparr>
   \<and> (\<exists>ev'. exec_inst Map.empty \<lparr>line = [], tokens = [[97, 44], [120], ang]\<rparr>
          \<lparr>variables = [[97] \<mapsto> 72], pc = 0, stdout = []\<rparr> = Inr ev'
        \<and> variables ev' [120] = Some 0)
   \<and> (\<exists>ev'. exec_inst Map.empty \<lparr>line = [], tokens = [naya, [120]]\<rparr>
          \<lparr>variables = [[97] \<mapsto> 72], pc = 0, stdout = []\<rparr> = Inr ev'
        \<and> get_val (variables ev') [120] = Inr 0)"
proof -
  define ev where "ev = \<lparr>variables = [[97] \<mapsto> (72::int)], pc = 0, stdout = []\<rparr>"
  have c: "CONSTANTS [120] = None" by (simp add: CONSTANTS_def keyword_defs)
  have v: "variables ev [120] = None" by (simp add: ev_def)
  have a: "\<not> is_constant [97]" "\<not> is_constant [120]"
    by (simp_all add: is_constant_def CONSTANTS_def keyword_defs)
  note T = undefined_name_reads[OF c v _ refl refl, where labels = Map.empty]
  have 1: "get_val Map.empty [120] = Inl (CKRRuntimeError (UndefinedVariable [120]))"
    using undefined_name_reads[OF c, of "\<lparr>variables = Map.empty, pc = 0, stdout = []\<rparr>"
               "\<lparr>line = [], tokens = [[120], eul]\<rparr>", OF _ _ refl refl]
    by simp
  have f: "\<forall>s\<in>set [[97], [120]]. \<forall>v. get_val (variables ev) s = Inr v
             \<longrightarrow> py_chr v \<noteq> ChrOverflowError"
    by (simp add: ev_def get_val_def CONSTANTS_def py_chr_def keyword_defs)
  have s2: "command_of [[97, 44], [120], eul] = eul"
      "subjects_of eul [[97, 44], [120], eul] = [[97], [120]]"
    by (simp_all add: command_of_def subjects_of_def parse_subjects_def py_strip_def
          is_space_def keyword_defs)
  have 2: "\<exists>m ev'. exec_inst Map.empty \<lparr>line = [], tokens = [[97, 44], [120], eul]\<rparr> ev
        = Inl (CKRRuntimeError (UndefinedVariable m), ev')"
    using T[of "\<lparr>line = [], tokens = [[97, 44], [120], eul]\<rparr>"] s2 f by simp
  have s3: "command_of [[97, 44], [120], jorigo] = jorigo"
      "subjects_of jorigo [[97, 44], [120], jorigo] = [[97], [120]]"
    by (simp_all add: command_of_def subjects_of_def parse_subjects_def py_strip_def
          is_space_def keyword_defs)
  have 3: "\<exists>m. exec_inst Map.empty \<lparr>line = [], tokens = [[97, 44], [120], jorigo]\<rparr> ev
        = Inl (CKRRuntimeError (UndefinedVariable m), ev)"
    using T[of "\<lparr>line = [], tokens = [[97, 44], [120], jorigo]\<rparr>"] s3 a by simp
  have s4: "command_of [[120], yokmangui_jorimingan, jorimping] = jorimping"
      "py_in jorimping jorimping"
      "is_conditional [[120], yokmangui_jorimingan, jorimping]"
      "jump_subjects [[120], yokmangui_jorimingan, jorimping] = [[120]]"
    by (simp_all add: command_of_def jump_subjects_def is_conditional_def cond_op_of_def
          py_in_def parse_subjects_def py_strip_def is_space_def keyword_defs)
  have 4: "\<exists>m. exec_inst Map.empty
          \<lparr>line = [], tokens = [[120], yokmangui_jorimingan, jorimping]\<rparr> ev
        = Inl (CKRRuntimeError (UndefinedVariable m), ev)"
    using T[of "\<lparr>line = [], tokens = [[120], yokmangui_jorimingan, jorimping]\<rparr>"] s4
    by simp
  have s5: "command_of [[120], jorinda] = jorinda"
      "subjects_of jorinda [[120], jorinda] = [[120]]"
    by (simp_all add: command_of_def subjects_of_def parse_subjects_def py_strip_def
          is_space_def keyword_defs)
  have 5: "exec_inst Map.empty \<lparr>line = [], tokens = [[120], jorinda]\<rparr> ev
        = Inr (ev\<lparr>variables := (variables ev)([120] \<mapsto> - 1), pc := pc ev + 1\<rparr>)"
    using T[of "\<lparr>line = [], tokens = [[120], jorinda]\<rparr>"] s5
    by (simp add: operation_words_distinct)
  have s6: "command_of [[97, 44], [120], ang] = ang"
      "subjects_of ang [[97, 44], [120], ang] = [[97], [120]]"
    by (simp_all add: command_of_def subjects_of_def parse_subjects_def py_strip_def
          is_space_def keyword_defs)
  have 6: "\<exists>ev'. exec_inst Map.empty \<lparr>line = [], tokens = [[97, 44], [120], ang]\<rparr> ev
             = Inr ev' \<and> variables ev' [120] = Some 0"
    using T[of "\<lparr>line = [], tokens = [[97, 44], [120], ang]\<rparr>"] s6 a by simp
  have s7: "command_of [naya, [120]] = naya" "subjects_of naya [naya, [120]] = [[120]]"
    by (simp_all add: command_of_def subjects_of_def parse_subjects_def py_strip_def
          is_space_def keyword_defs)
  have 7: "\<exists>ev'. exec_inst Map.empty \<lparr>line = [], tokens = [naya, [120]]\<rparr> ev
             = Inr ev' \<and> get_val (variables ev') [120] = Inr 0"
    using T[of "\<lparr>line = [], tokens = [naya, [120]]\<rparr>"] s7 a by simp
  from c 1 2 3 4 5 6 7 show ?thesis
    unfolding ev_def by simp
qed


text \<open>The single-subject add on a name never written raises nothing: it stores 1.\<close>

theorem single_add_undefined_counterexample:
  "CONSTANTS [120] = None
   \<and> variables \<lparr>variables = Map.empty, pc = 0, stdout = []\<rparr> [120] = None
   \<and> exec_inst Map.empty \<lparr>line = [120, 32] @ joryeo, tokens = [[120], joryeo]\<rparr>
        \<lparr>variables = Map.empty, pc = 0, stdout = []\<rparr>
      = Inr \<lparr>variables = [[120] \<mapsto> 1], pc = 1, stdout = []\<rparr>"
  by (simp add: exec_defs keyword_defs)


text \<open>
  Claim C2, as the code has it. A conditional jump whose subjects all resolve and whose
  label is not in the label table raises the missing-label error exactly when its
  condition is met; when the condition is not met it raises nothing and execution goes on
  with the next instruction, the store and the output unchanged.
\<close>

theorem conditional_jump_missing_label:
  assumes "length (tokens inst) \<ge> 2" and "hd (tokens inst) \<noteq> naya"
    and "py_in jorimping (last (tokens inst))"
    and "cond_op_of (tokens inst) = jorimingan \<or> cond_op_of (tokens inst) = yokmangui_jorimingan"
    and "get_vals (variables ev) (jump_subjects (tokens inst)) = Inr vals"
    and "labels (py_delete jorimping (last (tokens inst))) = None"
  shows "exec_inst labels inst ev =
           (if condition_met (cond_op_of (tokens inst)) vals
            then Inl (CKRRuntimeError (MissingLabel (py_delete jorimping (last (tokens inst)))), ev)
            else Inr (ev\<lparr>pc := pc ev + 1\<rparr>))"
proof -
  from assms(1) have ne: "tokens inst \<noteq> []" by auto
  from assms(2) have cmd: "command_of (tokens inst) = last (tokens inst)"
    by (simp add: command_of_def)
  have "exec_inst labels inst ev = exec_jump labels (last (tokens inst)) (tokens inst) ev"
    using exec_inst_jump[OF ne, of labels ev] assms(3) cmd by simp
  then show ?thesis
    using exec_jump_conditional[OF comparators_conditional[OF assms(1,4)] assms(5)] assms(6)
    by simp
qed


theorem conditional_jump_missing_label_witness:
  "length (tokens \<lparr>line = [], tokens = [budeulbudeul, jorimingan, jorimping @ [46]]\<rparr>) \<ge> 2
   \<and> Map.empty (py_delete jorimping (jorimping @ [46])) = (None :: nat option)
   \<and> exec_inst Map.empty \<lparr>line = [], tokens = [budeulbudeul, jorimingan, jorimping @ [46]]\<rparr>
        \<lparr>variables = Map.empty, pc = 0, stdout = []\<rparr>
      = Inl (CKRRuntimeError (MissingLabel [46]), \<lparr>variables = Map.empty, pc = 0, stdout = []\<rparr>)"
proof -
  define tks where "tks = [budeulbudeul, jorimingan, jorimping @ [46]]"
  define ev where "ev = \<lparr>variables = Map.empty, pc = 0, stdout = []\<rparr>"
  have h: "length (tokens \<lparr>line = [], tokens = tks\<rparr>) \<ge> 2"
      "hd (tokens \<lparr>line = [], tokens = tks\<rparr>) \<noteq> naya"
      "py_in jorimping (last (tokens \<lparr>line = [], tokens = tks\<rparr>))"
      "cond_op_of (tokens \<lparr>line = [], tokens = tks\<rparr>) = jorimingan
         \<or> cond_op_of (tokens \<lparr>line = [], tokens = tks\<rparr>) = yokmangui_jorimingan"
      "get_vals (variables ev) (jump_subjects (tokens \<lparr>line = [], tokens = tks\<rparr>)) = Inr [0]"
      "Map.empty (py_delete jorimping (last (tokens \<lparr>line = [], tokens = tks\<rparr>)))
         = (None :: nat option)"
    by (simp_all add: tks_def ev_def exec_defs keyword_defs)
  have d: "py_delete jorimping (jorimping @ [46]) = [46]"
      "condition_met jorimingan [0]"
    by (simp_all add: condition_met_def keyword_defs)
  from conditional_jump_missing_label[OF h] d show ?thesis
    by (simp add: tks_def ev_def cond_op_of_def)
qed

text \<open>A conditional jump to a label that does not exist, with a condition that is not met
  (the constant 1 compared with 0): no error, the next instruction follows.\<close>

theorem false_condition_missing_label_counterexample:
  "Map.empty (py_delete jorimping jorimping) = (None :: nat option)
   \<and> exec_inst Map.empty
        \<lparr>line = poksinpoksin @ [32] @ jorimingan @ [32] @ jorimping,
         tokens = [poksinpoksin, jorimingan, jorimping]\<rparr>
        \<lparr>variables = Map.empty, pc = 0, stdout = []\<rparr>
      = Inr \<lparr>variables = Map.empty, pc = 1, stdout = []\<rparr>"
  by (simp add: exec_defs keyword_defs)


text \<open>
  Claim C3, as the code has it. An instruction that raises and is not a declare, negate or
  print instruction (so an add, subtract, multiply, jump or unknown command) leaves the
  evaluator, store and output, exactly as it was. Declare, negate and print go through
  their subjects from left to right and raise their runtime error at the first failing
  subject: at the raise, the subjects before it have been zeroed, negated or printed, and
  nothing else has changed.
\<close>

theorem failing_instruction_effects:
  assumes "tokens inst \<noteq> []" and "exec_inst labels inst ev = Inl (e, ev')"
    and "cmd = command_of (tokens inst)"
  shows "(cmd \<noteq> naya \<and> cmd \<noteq> ang \<and> cmd \<noteq> eul \<longrightarrow> ev' = ev)
       \<and> (cmd = naya \<longrightarrow>
            (\<exists>pre s post. subjects_of cmd (tokens inst) = pre @ s # post \<and> is_constant s
               \<and> e = CKRRuntimeError (ConstantMutation s) \<and> declare_loop pre ev = Inr ev'))
       \<and> (cmd = ang \<longrightarrow>
            (\<exists>pre s post. subjects_of cmd (tokens inst) = pre @ s # post \<and> is_constant s
               \<and> e = CKRRuntimeError (ConstantMutation s) \<and> negate_loop pre ev = Inr ev'))
       \<and> (cmd = eul \<and> e \<noteq> OverflowError \<longrightarrow>
            (\<exists>pre s post. subjects_of cmd (tokens inst) = pre @ s # post
               \<and> get_val (variables ev') s = Inl e \<and> print_loop pre ev = Inr ev'))"
proof (intro conjI impI)
  assume c: "cmd \<noteq> naya \<and> cmd \<noteq> ang \<and> cmd \<noteq> eul"
  show "ev' = ev"
  proof (cases "py_in jorimping cmd")
    case True
    with assms exec_inst_jump[OF assms(1), of labels ev]
    have "exec_jump labels cmd (tokens inst) ev = Inl (e, ev')" by simp
    then show ?thesis by (rule exec_jump_failure)
  next
    case False
    with assms exec_inst_operation[OF assms(1), of labels ev]
    have "exec_operation cmd (tokens inst) ev = Inl (e, ev')"
      by (auto split: sum.splits)
    with c show ?thesis
      by (auto simp: exec_operation_def do_add_def do_sub_def do_mul_def Let_def
               split: if_splits dest: arith_failure)
  qed
next
  assume c: "cmd = naya"
  with assms exec_inst_operation[OF assms(1), of labels ev] operation_words_no_jump
  have "exec_operation cmd (tokens inst) ev = Inl (e, ev')"
    by (auto split: sum.splits)
  with c have "declare_loop (subjects_of cmd (tokens inst)) ev = Inl (e, ev')"
    by (simp add: exec_operation_def)
  then show "\<exists>pre s post. subjects_of cmd (tokens inst) = pre @ s # post \<and> is_constant s
               \<and> e = CKRRuntimeError (ConstantMutation s) \<and> declare_loop pre ev = Inr ev'"
    by (rule declare_loop_failure)
next
  assume c: "cmd = ang"
  with assms exec_inst_operation[OF assms(1), of labels ev] operation_words_no_jump
  have "exec_operation cmd (tokens inst) ev = Inl (e, ev')"
    by (auto split: sum.splits)
  with c have "negate_loop (subjects_of cmd (tokens inst)) ev = Inl (e, ev')"
    by (simp add: exec_operation_def operation_words_distinct)
  then show "\<exists>pre s post. subjects_of cmd (tokens inst) = pre @ s # post \<and> is_constant s
               \<and> e = CKRRuntimeError (ConstantMutation s) \<and> negate_loop pre ev = Inr ev'"
    by (rule negate_loop_failure)
next
  assume c: "cmd = eul \<and> e \<noteq> OverflowError"
  with assms exec_inst_operation[OF assms(1), of labels ev] operation_words_no_jump
  have "exec_operation cmd (tokens inst) ev = Inl (e, ev')"
    by (auto split: sum.splits)
  with c have "print_loop (subjects_of cmd (tokens inst)) ev = Inl (e, ev')"
    by (simp add: exec_operation_def operation_words_distinct)
  with c show "\<exists>pre s post. subjects_of cmd (tokens inst) = pre @ s # post
               \<and> get_val (variables ev') s = Inl e \<and> print_loop pre ev = Inr ev'"
    by (intro print_loop_failure) simp_all
qed

theorem failing_instruction_effects_witness:
  "exec_inst Map.empty \<lparr>line = [], tokens = [naya, [97, 44], budeulbudeul]\<rparr>
     \<lparr>variables = Map.empty, pc = 0, stdout = []\<rparr>
   = Inl (CKRRuntimeError (ConstantMutation budeulbudeul),
          \<lparr>variables = [[97] \<mapsto> 0], pc = 0, stdout = []\<rparr>)
   \<and> (\<exists>pre s post.
         subjects_of naya [naya, [97, 44], budeulbudeul] = pre @ s # post \<and> is_constant s
         \<and> declare_loop pre \<lparr>variables = Map.empty, pc = 0, stdout = []\<rparr>
             = Inr \<lparr>variables = [[97] \<mapsto> 0], pc = 0, stdout = []\<rparr>)
   \<and> exec_inst Map.empty \<lparr>line = [], tokens = [poksinpoksin @ [44], [120], eul]\<rparr>
        \<lparr>variables = Map.empty, pc = 0, stdout = []\<rparr>
      = Inl (CKRRuntimeError (UndefinedVariable [120]),
             \<lparr>variables = Map.empty, pc = 0, stdout = [1]\<rparr>)
   \<and> (\<exists>pre s post.
         subjects_of eul [poksinpoksin @ [44], [120], eul] = pre @ s # post
         \<and> print_loop pre \<lparr>variables = Map.empty, pc = 0, stdout = []\<rparr>
             = Inr \<lparr>variables = Map.empty, pc = 0, stdout = [1]\<rparr>)"
proof -
  define inst where "inst = \<lparr>line = [], tokens = [naya, [97, 44], budeulbudeul]\<rparr>"
  define ev where "ev = \<lparr>variables = (Map.empty :: ustr \<rightharpoonup> int), pc = 0, stdout = []\<rparr>"
  define ev' where "ev' = \<lparr>variables = [[97] \<mapsto> (0::int)], pc = 0, stdout = []\<rparr>"
  have ne: "tokens inst \<noteq> []" by (simp add: inst_def)
  have r: "exec_inst Map.empty inst ev
             = Inl (CKRRuntimeError (ConstantMutation budeulbudeul), ev')"
    by (simp add: inst_def ev_def ev'_def exec_defs keyword_defs)
  have c: "command_of (tokens inst) = naya"
    by (simp add: inst_def command_of_def)
  from failing_instruction_effects[OF ne r refl] c
  have 1: "\<exists>pre s post. subjects_of naya (tokens inst) = pre @ s # post \<and> is_constant s
          \<and> declare_loop pre ev = Inr ev'"
    by auto
  define inst2 where "inst2 = \<lparr>line = [], tokens = [poksinpoksin @ [44], [120], eul]\<rparr>"
  define ev2 where "ev2 = \<lparr>variables = (Map.empty :: ustr \<rightharpoonup> int), pc = 0, stdout = [1]\<rparr>"
  have ne2: "tokens inst2 \<noteq> []" by (simp add: inst2_def)
  have r2: "exec_inst Map.empty inst2 ev
             = Inl (CKRRuntimeError (UndefinedVariable [120]), ev2)"
    by (simp add: inst2_def ev_def ev2_def exec_defs keyword_defs)
  have c2: "command_of (tokens inst2) = eul"
    by (simp add: inst2_def command_of_def keyword_defs)
  from failing_instruction_effects[OF ne2 r2 refl] c2
  have 2: "\<exists>pre s post. subjects_of eul (tokens inst2) = pre @ s # post
          \<and> print_loop pre ev = Inr ev2"
    by auto
  from r 1 r2 2 show ?thesis by (simp add: inst_def inst2_def ev_def ev'_def ev2_def)
qed

text \<open>A declare instruction whose second subject is a constant: at the raise the first
  subject is already in the store.\<close>

theorem declare_partial_counterexample:
  "exec_inst Map.empty
     \<lparr>line = naya @ [32, 97, 44, 32] @ budeulbudeul, tokens = [naya, [97, 44], budeulbudeul]\<rparr>
     \<lparr>variables = Map.empty, pc = 0, stdout = []\<rparr>
   = Inl (CKRRuntimeError (ConstantMutation budeulbudeul),
          \<lparr>variables = [[97] \<mapsto> 0], pc = 0, stdout = []\<rparr>)
   \<and> [[97] \<mapsto> (0::int)] \<noteq> Map.empty"
  by (simp add: exec_defs keyword_defs)


text \<open>
  Claim C4. An add, subtract or multiply instruction whose target (its first subject) is
  not a constant: with that subject alone, the stored value (0 for a name the store does
  not hold) becomes the value plus 1, minus 1, or times 2; with more subjects, all
  resolving, the target is assigned the sum of all the subjects' values, the first value
  minus the sum of the others, or the product of all the values. The program counter
  advances by one.
\<close>

theorem arithmetic_unit_and_fold:
  assumes "tokens inst \<noteq> []"
    and "command_of (tokens inst) = cmd" and "cmd = joryeo \<or> cmd = jorinda \<or> cmd = jorigo"
    and "subjects_of cmd (tokens inst) = target # rest"
    and "\<not> is_constant target"
    and "rest \<noteq> [] \<longrightarrow> (\<forall>s\<in>set (target # rest). get_val (variables ev) s = Inr (val s))"
  shows "exec_inst labels inst ev =
           Inr (ev\<lparr>variables := (variables ev)(target \<mapsto>
                  (if rest = []
                   then (if cmd = joryeo then default_read (variables ev) target + 1
                         else if cmd = jorinda then default_read (variables ev) target - 1
                         else default_read (variables ev) target * 2)
                   else (if cmd = joryeo then sum_list (map val (target # rest))
                         else if cmd = jorinda then val target - sum_list (map val rest)
                         else prod_list (map val (target # rest))))),
                 pc := pc ev + 1\<rparr>)"
proof -
  have nj: "\<not> py_in jorimping cmd"
    using assms(3) operation_words_no_jump by auto
  have op: "exec_inst labels inst ev =
           (case exec_operation cmd (tokens inst) ev of
              Inl failure \<Rightarrow> Inl failure
            | Inr ev' \<Rightarrow> Inr (ev'\<lparr>pc := pc ev' + 1\<rparr>))"
    using exec_inst_operation[OF assms(1), of labels ev] nj assms(2) by simp
  show ?thesis
  proof (cases "rest = []")
    case True
    with assms(3,4,5) op show ?thesis
      by (auto simp: exec_operation_def do_add_def do_sub_def do_mul_def arith_def
            operation_words_distinct)
  next
    case False
    with assms(6) have "get_vals (variables ev) (target # rest) = Inr (map val (target # rest))"
      by (intro get_vals_resolved) simp
    with False assms(3,4,5) op show ?thesis
      by (auto simp: exec_operation_def do_add_def do_sub_def do_mul_def arith_def
            operation_words_distinct)
  qed
qed



theorem arithmetic_unit_and_fold_witness:
  "\<not> is_constant [97]
   \<and> exec_inst Map.empty \<lparr>line = [], tokens = [[97, 44], [98], jorinda]\<rparr>
        \<lparr>variables = [[98] \<mapsto> 3, [97] \<mapsto> 2], pc = 0, stdout = []\<rparr>
      = Inr \<lparr>variables = [[98] \<mapsto> 3, [97] \<mapsto> - 1], pc = 1, stdout = []\<rparr>
   \<and> exec_inst Map.empty \<lparr>line = [], tokens = [[97], jorigo]\<rparr>
        \<lparr>variables = [[98] \<mapsto> 3, [97] \<mapsto> 2], pc = 0, stdout = []\<rparr>
      = Inr \<lparr>variables = [[98] \<mapsto> 3, [97] \<mapsto> 4], pc = 1, stdout = []\<rparr>"
proof -
  define ev where "ev = \<lparr>variables = [[98] \<mapsto> (3::int), [97] \<mapsto> 2], pc = 0, stdout = []\<rparr>"
  define val where "val = (\<lambda>s :: ustr. if s = [97] then 2 else (3::int))"
  have a: "\<not> is_constant [97]"
    by (simp add: is_constant_def CONSTANTS_def keyword_defs)
  have s1: "tokens \<lparr>line = [], tokens = [[97, 44], [98], jorinda]\<rparr> \<noteq> []"
      "command_of (tokens \<lparr>line = [], tokens = [[97, 44], [98], jorinda]\<rparr>) = jorinda"
      "jorinda = joryeo \<or> jorinda = jorinda \<or> jorinda = jorigo"
      "subjects_of jorinda (tokens \<lparr>line = [], tokens = [[97, 44], [98], jorinda]\<rparr>)
         = [97] # [[98]]"
    by (simp_all add: command_of_def subjects_of_def parse_subjects_def py_strip_def
          is_space_def keyword_defs)
  have v1: "[[98]] \<noteq> [] \<longrightarrow> (\<forall>s\<in>set ([97] # [[98]]). get_val (variables ev) s = Inr (val s))"
    by (simp add: ev_def val_def get_val_def CONSTANTS_def keyword_defs)
  have 1: "exec_inst Map.empty \<lparr>line = [], tokens = [[97, 44], [98], jorinda]\<rparr> ev
             = Inr (ev\<lparr>variables := (variables ev)([97] \<mapsto> - 1), pc := pc ev + 1\<rparr>)"
    using arithmetic_unit_and_fold[OF s1 a v1, of Map.empty]
    by (simp add: val_def operation_words_distinct)
  have s2: "tokens \<lparr>line = [], tokens = [[97], jorigo]\<rparr> \<noteq> []"
      "command_of (tokens \<lparr>line = [], tokens = [[97], jorigo]\<rparr>) = jorigo"
      "jorigo = joryeo \<or> jorigo = jorinda \<or> jorigo = jorigo"
      "subjects_of jorigo (tokens \<lparr>line = [], tokens = [[97], jorigo]\<rparr>) = [97] # []"
    by (simp_all add: command_of_def subjects_of_def parse_subjects_def py_strip_def
          is_space_def keyword_defs)
  have v2: "([]::ustr list) \<noteq> [] \<longrightarrow> (\<forall>s\<in>set ([97] # []). get_val (variables ev) s = Inr (val s))"
    by simp
  have 2: "exec_inst Map.empty \<lparr>line = [], tokens = [[97], jorigo]\<rparr> ev
             = Inr (ev\<lparr>variables := (variables ev)([97] \<mapsto> 4), pc := pc ev + 1\<rparr>)"
    using arithmetic_unit_and_fold[OF s2 a v2, of Map.empty]
    by (simp add: ev_def default_read_def operation_words_distinct)
  from a 1 2 show ?thesis by (simp add: ev_def)
qed

text \<open>
  Claim C5. A conditional jump (the command word, which is the last token, contains the
  jump word) whose subjects resolve to the values \<open>vals\<close>. With the equality comparator
  the jump is taken if and only if there is one value and it is 0, or there are several
  and all equal the first; with the greater-than comparator, if and only if there is one
  value and it is positive, or there are several and the first is greater than every
  other. A jump taken goes to the label's index (or raises when the label is missing); a
  jump not taken goes on with the next instruction. With no value at all the jump is not
  taken.
\<close>

theorem conditional_jump_semantics:
  assumes "length (tokens inst) \<ge> 2" and "hd (tokens inst) \<noteq> naya"
    and "py_in jorimping (last (tokens inst))"
    and "get_vals (variables ev) (jump_subjects (tokens inst)) = Inr vals"
  shows "(cond_op_of (tokens inst) = jorimingan \<longrightarrow>
            exec_inst labels inst ev =
              (if (length vals = 1 \<and> vals ! 0 = 0)
                  \<or> (length vals > 1 \<and> (\<forall>k<length vals. vals ! k = vals ! 0))
               then (case labels (py_delete jorimping (last (tokens inst))) of
                       None \<Rightarrow> Inl (CKRRuntimeError
                                     (MissingLabel (py_delete jorimping (last (tokens inst)))), ev)
                     | Some i \<Rightarrow> Inr (ev\<lparr>pc := i\<rparr>))
               else Inr (ev\<lparr>pc := pc ev + 1\<rparr>)))
       \<and> (cond_op_of (tokens inst) = yokmangui_jorimingan \<longrightarrow>
            exec_inst labels inst ev =
              (if (length vals = 1 \<and> vals ! 0 > 0)
                  \<or> (length vals > 1
                     \<and> (\<forall>k. 1 \<le> k \<and> k < length vals \<longrightarrow> vals ! 0 > vals ! k))
               then (case labels (py_delete jorimping (last (tokens inst))) of
                       None \<Rightarrow> Inl (CKRRuntimeError
                                     (MissingLabel (py_delete jorimping (last (tokens inst)))), ev)
                     | Some i \<Rightarrow> Inr (ev\<lparr>pc := i\<rparr>))
               else Inr (ev\<lparr>pc := pc ev + 1\<rparr>)))
       \<and> (vals = [] \<longrightarrow> is_conditional (tokens inst) \<longrightarrow>
            exec_inst labels inst ev = Inr (ev\<lparr>pc := pc ev + 1\<rparr>))"
proof -
  from assms(1) have ne: "tokens inst \<noteq> []" by auto
  from assms(2) have cmd: "command_of (tokens inst) = last (tokens inst)"
    by (simp add: command_of_def)
  have j: "exec_inst labels inst ev = exec_jump labels (last (tokens inst)) (tokens inst) ev"
    using exec_inst_jump[OF ne, of labels ev] assms(3) cmd by simp
  have c: "is_conditional (tokens inst) \<Longrightarrow> exec_inst labels inst ev =
           (if condition_met (cond_op_of (tokens inst)) vals
            then (case labels (py_delete jorimping (last (tokens inst))) of
                    None \<Rightarrow> Inl (CKRRuntimeError (MissingLabel (py_delete jorimping (last (tokens inst)))), ev)
                  | Some i \<Rightarrow> Inr (ev\<lparr>pc := i\<rparr>))
            else Inr (ev\<lparr>pc := pc ev + 1\<rparr>))"
    using exec_jump_conditional[OF _ assms(4)] j by simp
  show ?thesis
    apply (intro conjI impI)
    subgoal using c comparators_conditional[OF assms(1)] by (simp add: condition_met_equal)
    subgoal using c comparators_conditional[OF assms(1)] by (simp add: condition_met_greater)
    subgoal using c by (simp add: condition_met_def)
    done
qed


theorem conditional_jump_semantics_witness:
  "py_in jorimping (jorimping @ [46])
   \<and> exec_inst [[46] \<mapsto> 0]
        \<lparr>line = [], tokens = [[97, 44], [97], jorimingan, jorimping @ [46]]\<rparr>
        \<lparr>variables = [[98] \<mapsto> - 4, [97] \<mapsto> 4], pc = 3, stdout = []\<rparr>
      = Inr \<lparr>variables = [[98] \<mapsto> - 4, [97] \<mapsto> 4], pc = 0, stdout = []\<rparr>
   \<and> exec_inst [[46] \<mapsto> 0]
        \<lparr>line = [], tokens = [[98], yokmangui_jorimingan, jorimping @ [46]]\<rparr>
        \<lparr>variables = [[98] \<mapsto> - 4, [97] \<mapsto> 4], pc = 3, stdout = []\<rparr>
      = Inr \<lparr>variables = [[98] \<mapsto> - 4, [97] \<mapsto> 4], pc = 4, stdout = []\<rparr>"
proof -
  define ev where "ev = \<lparr>variables = [[98] \<mapsto> (- 4::int), [97] \<mapsto> 4], pc = 3, stdout = []\<rparr>"
  define t1 where "t1 = [[97, 44], [97], jorimingan, jorimping @ [46]]"
  define t2 where "t2 = [[98], yokmangui_jorimingan, jorimping @ [46]]"
  have j: "py_in jorimping (jorimping @ [46])"
      "py_delete jorimping (jorimping @ [46]) = [46]"
    by (simp_all add: py_in_def keyword_defs)
  have h1: "length (tokens \<lparr>line = [], tokens = t1\<rparr>) \<ge> 2"
      "hd (tokens \<lparr>line = [], tokens = t1\<rparr>) \<noteq> naya"
      "py_in jorimping (last (tokens \<lparr>line = [], tokens = t1\<rparr>))"
      "get_vals (variables ev) (jump_subjects (tokens \<lparr>line = [], tokens = t1\<rparr>)) = Inr [4, 4]"
    by (simp_all add: t1_def ev_def exec_defs keyword_defs)
  have o1: "cond_op_of t1 = jorimingan" by (simp add: t1_def cond_op_of_def)
  have 1: "exec_inst [[46] \<mapsto> 0] \<lparr>line = [], tokens = t1\<rparr> ev = Inr (ev\<lparr>pc := 0\<rparr>)"
    using conditional_jump_semantics[OF h1, of "[[46] \<mapsto> 0]"] o1 j
    by (simp add: t1_def less_Suc_eq_0_disj)
  have h2: "length (tokens \<lparr>line = [], tokens = t2\<rparr>) \<ge> 2"
      "hd (tokens \<lparr>line = [], tokens = t2\<rparr>) \<noteq> naya"
      "py_in jorimping (last (tokens \<lparr>line = [], tokens = t2\<rparr>))"
      "get_vals (variables ev) (jump_subjects (tokens \<lparr>line = [], tokens = t2\<rparr>)) = Inr [- 4]"
    by (simp_all add: t2_def ev_def exec_defs keyword_defs)
  have o2: "cond_op_of t2 = yokmangui_jorimingan" by (simp add: t2_def cond_op_of_def)
  have 2: "exec_inst [[46] \<mapsto> 0] \<lparr>line = [], tokens = t2\<rparr> ev = Inr (ev\<lparr>pc := pc ev + 1\<rparr>)"
    using conditional_jump_semantics[OF h2, of "[[46] \<mapsto> 0]"] o2
    by simp
  from j 1 2 show ?thesis by (simp add: t1_def t2_def ev_def)
qed

text \<open>
  Print within the machine integers: when every subject resolves and no value is beyond
  them, the instruction writes one character for each subject, in order (the code point,
  or a question mark for a value that is no code point or is a surrogate), changes no
  variable and raises nothing.
\<close>

lemma print_within_machine_integers:
  assumes "tokens inst \<noteq> []" and "command_of (tokens inst) = eul"
    and "\<forall>s\<in>set (subjects_of eul (tokens inst)).
           get_val (variables ev) s = Inr (val s)
           \<and> - 2147483648 \<le> val s \<and> val s \<le> 2147483647"
  shows "exec_inst labels inst ev =
           Inr (ev\<lparr>stdout := stdout ev @
                    map (\<lambda>s. if 0 \<le> val s \<and> val s < 1114112
                                 \<and> \<not> (55296 \<le> val s \<and> val s \<le> 57343)
                              then nat (val s) else 63)
                        (subjects_of eul (tokens inst)),
                  pc := pc ev + 1\<rparr>)"
proof -
  define out where "out = (\<lambda>s. if 0 \<le> val s \<and> val s < 1114112
                                 \<and> \<not> (55296 \<le> val s \<and> val s \<le> 57343)
                              then nat (val s) else (63::nat))"
  have "\<forall>s\<in>set (subjects_of eul (tokens inst)).
          get_val (variables ev) s = Inr (val s) \<and> printed (val s) = Inr (out s)"
    using assms(3) by (auto simp: out_def printed_def py_chr_def)
  from print_loop_resolved[OF this]
  have "exec_operation eul (tokens inst) ev =
          Inr (ev\<lparr>stdout := stdout ev @ map out (subjects_of eul (tokens inst))\<rparr>)"
    by (simp add: exec_operation_def operation_words_distinct)
  then show ?thesis
    using exec_inst_operation[OF assms(1), of labels ev] assms(2) operation_words_no_jump
    by (simp add: out_def)
qed

lemma run_loop_numeral:
  "run_loop (numeral k) instructions labels ev =
     (case run_step instructions labels ev of
        Running ev' \<Rightarrow> run_loop (pred_numeral k) instructions labels ev'
      | Finished ev' \<Rightarrow> Finished ev'
      | Aborted e ev' \<Rightarrow> Aborted e ev')"
  by (simp add: numeral_eq_Suc)

text \<open>
  Claim C6 does not hold of the code beyond the machine integers. The source text, between
  the markers, declares \<open>a\<close>, adds 1, doubles it, multiplies it by itself five times (it
  is then 4294967296) and prints it. \<open>chr\<close> raises \<open>OverflowError\<close>, which the handler of the print does
  not catch: the run is aborted at the print instruction (index 8), nothing is written,
  where the claim has the placeholder written and the run going on.
\<close>

theorem print_beyond_machine_integers_aborts:
  "tokenize (START_MARKER @ [10] @ naya @ [32, 97, 10]
             @ [97, 32] @ joryeo @ [10]
             @ [97, 32] @ jorigo @ [10]
             @ [97, 44, 32, 97, 32] @ jorigo @ [10]
             @ [97, 44, 32, 97, 32] @ jorigo @ [10]
             @ [97, 44, 32, 97, 32] @ jorigo @ [10]
             @ [97, 44, 32, 97, 32] @ jorigo @ [10]
             @ [97, 44, 32, 97, 32] @ jorigo @ [10]
             @ [97, 32] @ eul @ [10] @ END_MARKER)
     = Inr [[naya, [97]], [[97], joryeo], [[97], jorigo],
                  [[97, 44], [97], jorigo], [[97, 44], [97], jorigo],
                  [[97, 44], [97], jorigo], [[97, 44], [97], jorigo],
                  [[97, 44], [97], jorigo], [[97], eul]]
   \<and> run 9 (fst (parse [[naya, [97]], [[97], joryeo], [[97], jorigo],
                  [[97, 44], [97], jorigo], [[97, 44], [97], jorigo],
                  [[97, 44], [97], jorigo], [[97, 44], [97], jorigo],
                  [[97, 44], [97], jorigo], [[97], eul]]))
        (snd (parse [[naya, [97]], [[97], joryeo], [[97], jorigo],
                  [[97, 44], [97], jorigo], [[97, 44], [97], jorigo],
                  [[97, 44], [97], jorigo], [[97, 44], [97], jorigo],
                  [[97, 44], [97], jorigo], [[97], eul]]))
        \<lparr>variables = Map.empty, pc = 0, stdout = []\<rparr>
     = Aborted OverflowError \<lparr>variables = [[97] \<mapsto> 4294967296], pc = 8, stdout = []\<rparr>"
proof -
  have "tokenize (START_MARKER @ [10] @ naya @ [32, 97, 10]
             @ [97, 32] @ joryeo @ [10]
             @ [97, 32] @ jorigo @ [10]
             @ [97, 44, 32, 97, 32] @ jorigo @ [10]
             @ [97, 44, 32, 97, 32] @ jorigo @ [10]
             @ [97, 44, 32, 97, 32] @ jorigo @ [10]
             @ [97, 44, 32, 97, 32] @ jorigo @ [10]
             @ [97, 44, 32, 97, 32] @ jorigo @ [10]
             @ [97, 32] @ eul @ [10] @ END_MARKER)
     = Inr [[naya, [97]], [[97], joryeo], [[97], jorigo],
                  [[97, 44], [97], jorigo], [[97, 44], [97], jorigo],
                  [[97, 44], [97], jorigo], [[97, 44], [97], jorigo],
                  [[97, 44], [97], jorigo], [[97], eul]]"
    by (simp add: lexer_defs keyword_defs)
  moreover have "run 9 (fst (parse [[naya, [97]], [[97], joryeo], [[97], jorigo],
                  [[97, 44], [97], jorigo], [[97, 44], [97], jorigo],
                  [[97, 44], [97], jorigo], [[97, 44], [97], jorigo],
                  [[97, 44], [97], jorigo], [[97], eul]]))
        (snd (parse [[naya, [97]], [[97], joryeo], [[97], jorigo],
                  [[97, 44], [97], jorigo], [[97, 44], [97], jorigo],
                  [[97, 44], [97], jorigo], [[97, 44], [97], jorigo],
                  [[97, 44], [97], jorigo], [[97], eul]]))
        \<lparr>variables = Map.empty, pc = 0, stdout = []\<rparr>
     = Aborted OverflowError \<lparr>variables = [[97] \<mapsto> 4294967296], pc = 8, stdout = []\<rparr>"
    by (simp add: parse_def parse_step_def run_def run_step_def run_loop_numeral
          exec_defs keyword_defs)
  ultimately show ?thesis by blast
qed

text \<open>
  Claim C10. For the instructions and the label table that the parser builds from any
  list of groups, every index in the label table is at most the number of instructions,
  and however long a run has gone on, its program counter is at most that number; an
  instruction is fetched only below it, and an evaluator whose program counter equals it
  (as after a jump to a label defined after the last instruction) ends the run.
\<close>

theorem labels_and_pc_in_range:
  assumes "parse instruction_groups = (instructions, labels)"
  shows "(\<forall>name i. labels name = Some i \<longrightarrow> i \<le> length instructions)
       \<and> (\<forall>n ev. pc (evaluator_of (run n instructions labels ev)) \<le> length instructions)
       \<and> (\<forall>ev. pc ev = length instructions \<longrightarrow>
             run_step instructions labels ev = Finished ev)"
proof -
  have l: "\<forall>name i. labels name = Some i \<longrightarrow> i \<le> length instructions"
    using foldl_parse_step_labels[of "([], Map.empty)" instruction_groups] assms
    by (simp add: parse_def)
  show ?thesis
    using l run_loop_pc[OF l] by (simp add: run_def run_step_def)
qed


theorem labels_and_pc_in_range_witness:
  "parse [[yeonswaejorimma], [[97], joryeo], [jorimping], [yeonswaejorimma @ [46]]]
     = ([\<lparr>line = [97, 32] @ joryeo, tokens = [[97], joryeo]\<rparr>,
         \<lparr>line = jorimping, tokens = [jorimping]\<rparr>],
        [[] \<mapsto> 0, [46] \<mapsto> 2])
   \<and> (\<forall>n ev. pc (evaluator_of
         (run n [\<lparr>line = [97, 32] @ joryeo, tokens = [[97], joryeo]\<rparr>,
                 \<lparr>line = jorimping, tokens = [jorimping]\<rparr>]
              [[] \<mapsto> 0, [46] \<mapsto> 2] ev)) \<le> 2)"
proof -
  have p: "parse [[yeonswaejorimma], [[97], joryeo], [jorimping], [yeonswaejorimma @ [46]]]
     = ([\<lparr>line = [97, 32] @ joryeo, tokens = [[97], joryeo]\<rparr>,
         \<lparr>line = jorimping, tokens = [jorimping]\<rparr>],
        [[] \<mapsto> 0, [46] \<mapsto> 2])"
    by (simp add: parse_def parse_step_def py_strip_def is_space_def keyword_defs
          numeral_2_eq_2)
  from labels_and_pc_in_range[OF p] p show ?thesis by (simp add: numeral_2_eq_2)
qed

end
